theory Spec2Isabelle
  imports Main
begin

section \<open>The parse state\<close>

text \<open>
  A token is the object \<^verbatim>\<open>{name, text, cursor}\<close> made by the tokenizer. The name is
  \<^verbatim>\<open>tokennames[tokenno]\<close>, which JavaScript evaluates to \<^verbatim>\<open>undefined\<close> when the index
  is \<^verbatim>\<open>-1\<close> or past the end: \<open>None\<close> stands for \<^verbatim>\<open>undefined\<close>. The fields carry the prefix
  \<open>tok_\<close> because the parse state of \<^verbatim>\<open>parsers.js\<close> has a field \<^verbatim>\<open>cursor\<close> of its own.
\<close>

record token =
  tok_name :: "string option"
  tok_text :: string
  tok_cursor :: nat

text \<open>
  An element of the \<^verbatim>\<open>ast\<close> array: a token, a node \<^verbatim>\<open>{name, children}\<close>, or the empty slot
  that JavaScript leaves when \<^verbatim>\<open>array.length = n\<close> makes an array longer.
\<close>

datatype item = Tok token | Node string "item list" | Hole

text \<open>The label of a cut is any value; numbers and strings are the ones the README uses.\<close>

datatype label = NumLabel int | StrLabel string

text \<open>
  The cut marker: \<^verbatim>\<open>{label, at: state.next}\<close> in \<^verbatim>\<open>jsparser.js\<close>,
  \<^verbatim>\<open>{label, cursor: state.cursor}\<close> in \<^verbatim>\<open>parsers.js\<close>.
\<close>

record cutmark =
  label :: label
  at :: nat

text \<open>
  The parse state \<^verbatim>\<open>{tokens, cursor, ast, cut}\<close> of \<^verbatim>\<open>parsers.js\<close>; \<^verbatim>\<open>jsparser.js\<close> holds the
  same object in a closure and calls the cursor \<^verbatim>\<open>next\<close>. A state that has not passed a
  cut has no \<^verbatim>\<open>cut\<close> property: \<open>None\<close>.
\<close>

record state =
  tokens :: "token list"
  cursor :: nat
  ast :: "item list"
  cut :: "cutmark option"

text \<open>
  What a \<^verbatim>\<open>throw\<close> carries: the live parse state (\<^verbatim>\<open>restore\<close>), the
  \<^verbatim>\<open>ReferenceError\<close> of an unbound identifier, the \<^verbatim>\<open>TypeError\<close> of a property read on
  \<^verbatim>\<open>null\<close> or \<^verbatim>\<open>undefined\<close>, a token (the default \<^verbatim>\<open>unknownhandler\<close>), the
  message \<^verbatim>\<open>`token ${name} succeeded without consuming any input at character ${m.index}`\<close>
  (kept as its two interpolated values), or any other string.
\<close>

datatype error =
    CutAbort state
  | ReferenceError string
  | TypeError string
  | ThrownToken token
  | NoInputConsumed "string option" nat
  | ThrownString string

text \<open>
  A parser is a JavaScript function that mutates the state and returns a truthy or a falsy
  value, or throws. The model passes the state and returns the state it leaves together
  with the truth of the returned value; a throw is \<open>Inl\<close>.
\<close>

type_synonym parser = "state \<Rightarrow> error + bool \<times> state"

section \<open>Primitive parsers\<close>

text \<open>
  \<^verbatim>\<open>keep\<close>: \<^verbatim>\<open>if (state.tokens[state.next]) { state.ast.push({...state.tokens[state.next++]});
  return true } else { return false }\<close>. Tokens are objects, hence truthy, so the test is
  that the index is inside the array. This is \<^verbatim>\<open>keep\<close> on the values of the tokens; which
  object is pushed, where \<^verbatim>\<open>jsparser.js\<close> and \<^verbatim>\<open>parsers.js\<close> differ, is the subject of
  the section on token objects below.
\<close>

definition keep :: parser where
  "keep s =
     (if cursor s < length (tokens s)
      then Inr (True, s\<lparr>ast := ast s @ [Tok (tokens s ! cursor s)], cursor := cursor s + 1\<rparr>)
      else Inr (False, s))"

definition skip :: parser where
  "skip s =
     (if cursor s < length (tokens s)
      then Inr (True, s\<lparr>cursor := cursor s + 1\<rparr>)
      else Inr (False, s))"

text \<open>\<^verbatim>\<open>is(name)\<close>: \<^verbatim>\<open>state.tokens[state.next]?.name == name\<close>.\<close>

definition is_tok :: "string \<Rightarrow> state \<Rightarrow> bool" where
  "is_tok nm s = (cursor s < length (tokens s) \<and> tok_name (tokens s ! cursor s) = Some nm)"

definition match :: "string \<Rightarrow> parser" where
  "match nm s = (if is_tok nm s then keep s else Inr (False, s))"

definition eat :: "string \<Rightarrow> parser" where
  "eat nm s = (if is_tok nm s then skip s else Inr (False, s))"

text \<open>\<^verbatim>\<open>not(name)\<close>: \<^verbatim>\<open>!is(name) && keep()\<close>.\<close>

definition not_tok :: "string \<Rightarrow> parser" where
  "not_tok nm s = (if \<not> is_tok nm s then keep s else Inr (False, s))"

text \<open>\<^verbatim>\<open>END()\<close>: \<^verbatim>\<open>state.next >= state.tokens.length\<close>.\<close>

definition END :: parser where
  "END s = Inr (cursor s \<ge> length (tokens s), s)"

text \<open>\<^verbatim>\<open>cut(label)\<close>: \<^verbatim>\<open>state.cut = { label, at: state.next }; return true\<close>.\<close>

definition cut_here :: "label \<Rightarrow> parser" where
  "cut_here l s = Inr (True, s\<lparr>cut := Some \<lparr>label = l, at = cursor s\<rparr>\<rparr>)"

text \<open>
  The operators \<^verbatim>\<open>a() || b()\<close> and \<^verbatim>\<open>a() && b()\<close> with which a grammar composes parsers:
  the right operand runs on the state the left one left behind, and a throw of either
  operand leaves the expression.
\<close>

definition orelse :: "parser \<Rightarrow> parser \<Rightarrow> parser" where
  "orelse a b s =
     (case a s of
        Inl e \<Rightarrow> Inl e
      | Inr (ok, s') \<Rightarrow> if ok then Inr (True, s') else b s')"

definition andthen :: "parser \<Rightarrow> parser \<Rightarrow> parser" where
  "andthen a b s =
     (case a s of
        Inl e \<Rightarrow> Inl e
      | Inr (ok, s') \<Rightarrow> if ok then b s' else Inr (False, s'))"

section \<open>Checkpoints: save and restore\<close>

text \<open>
  \<^verbatim>\<open>save\<close> returns \<^verbatim>\<open>{next: state.next, astlen: state.ast.length}\<close> (\<^verbatim>\<open>parsers.js\<close>:
  \<^verbatim>\<open>{cursor, astlen, state}\<close>, the last a reference to the live state, which the model
  passes to \<open>restore\<close> as an argument).
\<close>

record checkpoint =
  saved_cursor :: nat
  astlen :: nat

definition save :: "state \<Rightarrow> checkpoint" where
  "save s = \<lparr>saved_cursor = cursor s, astlen = length (ast s)\<rparr>"

text \<open>
  \<^verbatim>\<open>array.length = n\<close>: a longer array is cut to its first \<open>n\<close> elements, a shorter one
  is filled up with empty slots.
\<close>

definition set_length :: "nat \<Rightarrow> item list \<Rightarrow> item list" where
  "set_length n xs = take n xs @ replicate (n - length xs) Hole"

text \<open>
  \<^verbatim>\<open>restore\<close>:
  \<^verbatim>\<open>if (state?.cut?.at >= saved_state.next) { throw state }
  state.next = saved_state.next; state.ast.length = saved_state.astlen; return false\<close>.
  Without a cut the comparison is \<^verbatim>\<open>undefined >= n\<close>, which is false.
\<close>

definition restore :: "checkpoint \<Rightarrow> state \<Rightarrow> error + bool \<times> state" where
  "restore saved_state s =
     (if (case cut s of None \<Rightarrow> False | Some c \<Rightarrow> at c \<ge> saved_cursor saved_state)
      then Inl (CutAbort s)
      else Inr (False, s\<lparr>cursor := saved_cursor saved_state,
                         ast := set_length (astlen saved_state) (ast s)\<rparr>))"

section \<open>Combinators\<close>

text \<open>
  \<^verbatim>\<open>bt(parser)\<close>: \<^verbatim>\<open>let saved_state = save(state); return parser() || restore(saved_state)\<close>.
\<close>

definition bt :: "parser \<Rightarrow> parser" where
  "bt p s =
     (let saved_state = save s in
      case p s of
        Inl e \<Rightarrow> Inl e
      | Inr (ok, s') \<Rightarrow> if ok then Inr (True, s') else restore saved_state s')"

text \<open>
  An action takes the node and returns a node, or a falsy value (\<open>None\<close>), or throws.
  The loop \<^verbatim>\<open>for (let action of nodefn.actions) { if (!(node = action(node))) ... }\<close>
  stops at the first falsy result.
\<close>

type_synonym action = "item \<Rightarrow> error + item option"

fun run_actions :: "action list \<Rightarrow> item \<Rightarrow> error + item option" where
  "run_actions [] n = Inr (Some n)"
| "run_actions (a # as) n =
     (case a n of
        Inl e \<Rightarrow> Inl e
      | Inr None \<Rightarrow> Inr None
      | Inr (Some n') \<Rightarrow> run_actions as n')"

text \<open>
  \<^verbatim>\<open>nodefn\<close>, the function that \<^verbatim>\<open>node(name, parser, count)\<close> returns, with the list
  \<^verbatim>\<open>nodefn.actions\<close> as a parameter. \<^verbatim>\<open>count\<close> is any number, so the comparison
  \<^verbatim>\<open>state.ast.length - saved_state.astlen > count\<close> is made in the integers.
\<close>

definition nodefn :: "string \<Rightarrow> parser \<Rightarrow> int \<Rightarrow> action list \<Rightarrow> parser" where
  "nodefn nm p count actions s =
     (let saved_state = save s in
      case p s of
        Inl e \<Rightarrow> Inl e
      | Inr (ok, s1) \<Rightarrow>
          if ok then
            if int (length (ast s1)) - int (astlen saved_state) > count then
              let children = drop (astlen saved_state) (ast s1);
                  s2 = s1\<lparr>ast := set_length (astlen saved_state) (ast s1)\<rparr>
              in case run_actions actions (Node nm children) of
                   Inl e \<Rightarrow> Inl e
                 | Inr None \<Rightarrow> restore saved_state s2
                 | Inr (Some n) \<Rightarrow> Inr (True, s2\<lparr>ast := ast s2 @ [n]\<rparr>)
            else Inr (True, s1)
          else restore saved_state s1)"

text \<open>
  \<^verbatim>\<open>node(name, parser, count = 0)\<close> returns \<^verbatim>\<open>nodefn\<close> with \<^verbatim>\<open>nodefn.actions = []\<close>;
  \<^verbatim>\<open>action(nodefn, act)\<close> pushes \<^verbatim>\<open>act\<close> on that list;
  \<^verbatim>\<open>cnode = (name, parser) => node(name, parser, 1)\<close>.
\<close>

definition node :: "string \<Rightarrow> parser \<Rightarrow> int \<Rightarrow> parser" where
  "node nm p count = nodefn nm p count []"

definition cnode :: "string \<Rightarrow> parser \<Rightarrow> parser" where
  "cnode nm p = node nm p 1"

text \<open>
  \<^verbatim>\<open>many(parser)\<close> of \<^verbatim>\<open>jsparser.js\<close>:
  \<^verbatim>\<open>let next = state.next
  while (parser()) {
      if (state.next == next) { throw `parser in many() ... at token number ${cursor}` }
      next = state.next
  }
  return true\<close>.
  No variable \<^verbatim>\<open>cursor\<close> is in scope of the template literal, so evaluating it raises a
  \<^verbatim>\<open>ReferenceError\<close> and the \<^verbatim>\<open>throw\<close> statement itself is never reached. The loop need
  not end, so the function is partial: \<open>None\<close> is a run that never returns.
\<close>

partial_function (option) many_loop ::
  "parser \<Rightarrow> nat \<Rightarrow> state \<Rightarrow> (error + bool \<times> state) option"
where
  "many_loop p nxt s =
     (case p s of
        Inl e \<Rightarrow> Some (Inl e)
      | Inr (ok, s') \<Rightarrow>
          if ok then
            if cursor s' = nxt then Some (Inl (ReferenceError ''cursor''))
            else many_loop p (cursor s') s'
          else Some (Inr (True, s')))"

definition many :: "parser \<Rightarrow> state \<Rightarrow> (error + bool \<times> state) option" where
  "many p s = many_loop p (cursor s) s"

text \<open>
  \<^verbatim>\<open>many(parser, s)\<close> of \<^verbatim>\<open>parsers.js\<close>: \<^verbatim>\<open>while (parser(s)) {}; return s\<close>.
\<close>

partial_function (option) many_parsers ::
  "parser \<Rightarrow> state \<Rightarrow> (error + bool \<times> state) option"
where
  "many_parsers p s =
     (case p s of
        Inl e \<Rightarrow> Some (Inl e)
      | Inr (ok, s') \<Rightarrow> if ok then many_parsers p s' else Some (Inr (True, s')))"

text \<open>
  One level of grammar around a parser \<open>p\<close>: \<^verbatim>\<open>bt(p)\<close>, \<^verbatim>\<open>p() || q()\<close>, \<^verbatim>\<open>q() || p()\<close>,
  \<^verbatim>\<open>p() && q()\<close> and a node around \<open>p\<close>; \<open>enclose\<close> nests a list of them, outermost
  first.
\<close>

datatype frame =
    BtFrame
  | AltLeft parser
  | AltRight parser
  | SeqLeft parser
  | NodeFrame string int "action list"

fun wrap :: "frame \<Rightarrow> parser \<Rightarrow> parser" where
  "wrap BtFrame p = bt p"
| "wrap (AltLeft q) p = orelse p q"
| "wrap (AltRight q) p = orelse q p"
| "wrap (SeqLeft q) p = andthen p q"
| "wrap (NodeFrame nm count actions) p = nodefn nm p count actions"

fun enclose :: "frame list \<Rightarrow> parser \<Rightarrow> parser" where
  "enclose [] p = p"
| "enclose (f # fs) p = wrap f (enclose fs p)"

text \<open>\<^verbatim>\<open>init_state(tokens)\<close>: \<^verbatim>\<open>set_state({ tokens, next: 0, ast: [] })\<close>.\<close>

definition init_state :: "token list \<Rightarrow> state" where
  "init_state toks = \<lparr>tokens = toks, cursor = 0, ast = [], cut = None\<rparr>"

section \<open>Token objects by reference\<close>

text \<open>
  \<^verbatim>\<open>keep\<close> of \<^verbatim>\<open>jsparser.js\<close> pushes \<^verbatim>\<open>{ ...state.tokens[state.next++] }\<close>, a new object
  with the properties of the token; \<^verbatim>\<open>keep\<close> of \<^verbatim>\<open>parsers.js\<close> pushes
  \<^verbatim>\<open>state.tokens[state.cursor++]\<close>, the object that the tokens array holds. To tell the two
  apart the objects live in a store, a list in which an address is an index; the tokens
  array and the stack hold addresses, and a new object goes to the end of the store.
\<close>

type_synonym addr = nat

datatype ref_item = RefTok addr | RefNode string "ref_item list" | RefHole

record ref_state =
  store :: "token list"
  ref_tokens :: "addr list"
  ref_cursor :: nat
  ref_ast :: "ref_item list"
  ref_cut :: "cutmark option"

text \<open>
  \<^verbatim>\<open>keep\<close> of \<^verbatim>\<open>parsers.js\<close>:
  \<^verbatim>\<open>if (state.tokens[state.cursor]) { state.ast.push(state.tokens[state.cursor++]); return state }
  else { return false }\<close>.
\<close>

definition keep_parsers :: "ref_state \<Rightarrow> error + bool \<times> ref_state" where
  "keep_parsers s =
     (if ref_cursor s < length (ref_tokens s)
      then Inr (True, s\<lparr>ref_ast := ref_ast s @ [RefTok (ref_tokens s ! ref_cursor s)],
                         ref_cursor := ref_cursor s + 1\<rparr>)
      else Inr (False, s))"

text \<open>
  \<^verbatim>\<open>keep\<close> of \<^verbatim>\<open>jsparser.js\<close>:
  \<^verbatim>\<open>if (state.tokens[state.next]) { state.ast.push({ ...state.tokens[state.next++] }); return true }
  else { return false }\<close>.
\<close>

definition keep_jsparser :: "ref_state \<Rightarrow> error + bool \<times> ref_state" where
  "keep_jsparser s =
     (if ref_cursor s < length (ref_tokens s)
      then Inr (True, s\<lparr>store := store s @ [store s ! (ref_tokens s ! ref_cursor s)],
                         ref_ast := ref_ast s @ [RefTok (length (store s))],
                         ref_cursor := ref_cursor s + 1\<rparr>)
      else Inr (False, s))"

text \<open>
  The assignment \<^verbatim>\<open>object.name = nm\<close> to the object at an address, as an action or a
  handler may do to a token it was given (\<^verbatim>\<open>token.name = 'unquoted'\<close> in \<^verbatim>\<open>tests/csv.js\<close>).
\<close>

definition assign_name :: "addr \<Rightarrow> string \<Rightarrow> ref_state \<Rightarrow> ref_state" where
  "assign_name a nm s = s\<lparr>store := (store s)[a := (store s ! a)\<lparr>tok_name := Some nm\<rparr>]\<rparr>"

text \<open>
  The state of values that a state of references stands for, and the states in which
  every address is one of the store.
\<close>

fun deref :: "token list \<Rightarrow> ref_item \<Rightarrow> item" where
  "deref st (RefTok a) = Tok (st ! a)"
| "deref st (RefNode nm cs) = Node nm (map (deref st) cs)"
| "deref st RefHole = Hole"

definition value_of :: "ref_state \<Rightarrow> state" where
  "value_of s =
     \<lparr>tokens = map (\<lambda>a. store s ! a) (ref_tokens s), cursor = ref_cursor s,
      ast = map (deref (store s)) (ref_ast s), cut = ref_cut s\<rparr>"

fun item_within :: "nat \<Rightarrow> ref_item \<Rightarrow> bool" where
  "item_within n (RefTok a) = (a < n)"
| "item_within n (RefNode nm cs) = list_all (item_within n) cs"
| "item_within n RefHole = True"

definition well_formed :: "ref_state \<Rightarrow> bool" where
  "well_formed s =
     (list_all (\<lambda>a. a < length (store s)) (ref_tokens s) \<and>
      list_all (item_within (length (store s))) (ref_ast s))"

text \<open>
  \<^verbatim>\<open>restore\<close> on a state of references: the same test of the cut and the same two
  assignments, to the cursor and to \<^verbatim>\<open>ast.length\<close>. The objects of the store are not
  touched; what is thrown is the live state, here by its values.
\<close>

definition restore_ref :: "checkpoint \<Rightarrow> ref_state \<Rightarrow> error + bool \<times> ref_state" where
  "restore_ref saved_state s =
     (if (case ref_cut s of None \<Rightarrow> False | Some c \<Rightarrow> at c \<ge> saved_cursor saved_state)
      then Inl (CutAbort (value_of s))
      else Inr (False, s\<lparr>ref_cursor := saved_cursor saved_state,
                         ref_ast := take (astlen saved_state) (ref_ast s) @
                                    replicate (astlen saved_state - length (ref_ast s)) RefHole\<rparr>))"

section \<open>The variadic Lexer of jsparser.js\<close>

text \<open>
  The value of a definition \<^verbatim>\<open>{name: value}\<close>: a string, a regular expression (kept as
  its \<^verbatim>\<open>source\<close>), a boolean, \<^verbatim>\<open>null\<close> or \<^verbatim>\<open>undefined\<close>; \<open>truthy\<close> is JavaScript's
  truthiness and \<open>to_string\<close> the conversion that \<^verbatim>\<open>'(' + v + ')'\<close> applies.
\<close>

datatype jsval = Str string | RegExp string | Bool bool | Null | Undefined

definition truthy :: "jsval \<Rightarrow> bool" where
  "truthy v =
     (case v of
        Str s \<Rightarrow> s \<noteq> []
      | RegExp _ \<Rightarrow> True
      | Bool b \<Rightarrow> b
      | Null \<Rightarrow> False
      | Undefined \<Rightarrow> False)"

definition to_string :: "jsval \<Rightarrow> string" where
  "to_string v =
     (case v of
        Str s \<Rightarrow> s
      | RegExp src \<Rightarrow> ''/'' @ src @ ''/''
      | Bool b \<Rightarrow> (if b then ''true'' else ''false'')
      | Null \<Rightarrow> ''null''
      | Undefined \<Rightarrow> ''undefined'')"

text \<open>
  \<^verbatim>\<open>escaped(s)\<close>: \<^verbatim>\<open>s.replaceAll(/[()*+?-[\]\\^${}|/]/g, (v) => '\\' + v)\<close>. Inside the
  class, \<^verbatim>\<open>?-[\<close> is a range: every character from \<^verbatim>\<open>?\<close> to \<^verbatim>\<open>[\<close>, the capital letters
  among them.
\<close>

definition needs_escape :: "char \<Rightarrow> bool" where
  "needs_escape c =
     (c \<in> set ''()*+'' \<or>
      (of_char (CHR ''?'') \<le> (of_char c :: nat) \<and> (of_char c :: nat) \<le> of_char (CHR ''['')) \<or>
      c = CHR '']'' \<or> c = CHR 0x5C \<or> c \<in> set ''^${}|/'')"

definition escaped :: "string \<Rightarrow> string" where
  "escaped s = concat (map (\<lambda>c. if needs_escape c then [CHR 0x5C, c] else [c]) s)"

text \<open>An argument of the constructor: a bare string, or an object with one key.\<close>

datatype tokendef = Literal string | Named string jsval

text \<open>\<^verbatim>\<open>Array.prototype.findIndex\<close>, which answers \<^verbatim>\<open>-1\<close> when no element passes.\<close>

fun findIndex :: "('a \<Rightarrow> bool) \<Rightarrow> 'a list \<Rightarrow> int" where
  "findIndex P [] = - 1"
| "findIndex P (x # xs) =
     (if P x then 0 else (let r = findIndex P xs in if r = - 1 then - 1 else r + 1))"

text \<open>\<^verbatim>\<open>array[i]\<close>, which is \<^verbatim>\<open>undefined\<close> outside the array.\<close>

definition element :: "'a list \<Rightarrow> int \<Rightarrow> 'a option" where
  "element xs i = (if 0 \<le> i \<and> i < int (length xs) then Some (xs ! nat i) else None)"

text \<open>\<^verbatim>\<open>str.slice(a, b)\<close> for indices that are not negative.\<close>

definition slice :: "nat \<Rightarrow> nat \<Rightarrow> string \<Rightarrow> string" where
  "slice a b str = take (b - a) (drop a str)"

text \<open>
  \<^verbatim>\<open>makedef(d)\<close>: a string \<^verbatim>\<open>d\<close> becomes \<^verbatim>\<open>[d, escaped(d)]\<close>; an object becomes
  \<^verbatim>\<open>[Object.keys(d)[0], Object.values(d)[0]]\<close>, with a regular expression replaced by its
  source. The test \<^verbatim>\<open>d[1].constructor == RegExp\<close> reads a property of the value, which
  raises a \<^verbatim>\<open>TypeError\<close> on \<^verbatim>\<open>null\<close> and \<^verbatim>\<open>undefined\<close>.
\<close>

definition makedef :: "tokendef \<Rightarrow> error + string \<times> jsval" where
  "makedef d =
     (case d of
        Literal s \<Rightarrow> Inr (s, Str (escaped s))
      | Named k v \<Rightarrow>
          (case v of
             Null \<Rightarrow> Inl (TypeError ''constructor'')
           | Undefined \<Rightarrow> Inl (TypeError ''constructor'')
           | RegExp src \<Rightarrow> Inr (k, Str src)
           | _ \<Rightarrow> Inr (k, v)))"

record lexer =
  definitions :: "(string \<times> jsval) list"
  keepws :: bool

definition findtoken :: "string \<Rightarrow> lexer \<Rightarrow> int" where
  "findtoken nm lx = findIndex (\<lambda>d. fst d = nm) (definitions lx)"

text \<open>
  \<^verbatim>\<open>define(d, before)\<close>. Its first branch tests \<^verbatim>\<open>d.name == 'whitespace'\<close> on the array
  that \<^verbatim>\<open>makedef\<close> returned; an array has no property \<^verbatim>\<open>name\<close>, so the branch is never
  taken and is left out. \<^verbatim>\<open>!before\<close> holds for a missing argument and for the empty string.
\<close>

definition define_tok :: "tokendef \<Rightarrow> string option \<Rightarrow> lexer \<Rightarrow> error + lexer" where
  "define_tok d before_tok lx =
     (case makedef d of
        Inl e \<Rightarrow> Inl e
      | Inr d' \<Rightarrow>
          (case before_tok of
             None \<Rightarrow> Inr (lx\<lparr>definitions := definitions lx @ [d']\<rparr>)
           | Some b' \<Rightarrow>
               if b' = [] then Inr (lx\<lparr>definitions := definitions lx @ [d']\<rparr>)
               else let b = findtoken b' lx in
                 if b = - 1 then Inl (ThrownString ''cant find the token'')
                 else Inr (lx\<lparr>definitions :=
                             take (nat b) (definitions lx) @ [d'] @ drop (nat b) (definitions lx)\<rparr>)))"

text \<open>\<^verbatim>\<open>definitions.map((d) => this.makedef(d))\<close>: the first throw ends the map.\<close>

fun map_makedef :: "tokendef list \<Rightarrow> error + (string \<times> jsval) list" where
  "map_makedef [] = Inr []"
| "map_makedef (d # ds) =
     (case makedef d of
        Inl e \<Rightarrow> Inl e
      | Inr d' \<Rightarrow> (case map_makedef ds of Inl e \<Rightarrow> Inl e | Inr ds' \<Rightarrow> Inr (d' # ds')))"

text \<open>The source of \<^verbatim>\<open>/[ \r\n]+/\<close>, eight characters, two of them backslashes.\<close>

definition default_whitespace :: string where
  "default_whitespace =
     [CHR ''['', CHR '' '', CHR 0x5C, CHR ''r'', CHR 0x5C, CHR ''n'', CHR '']'', CHR ''+'']"

text \<open>
  The constructor:
  \<^verbatim>\<open>this.definitions = definitions.map((d) => this.makedef(d))
  if (this.findtoken('whitespace') == -1) { this.define({ whitespace: /[ \r\n]+/.source }) }
  this.keepws = false\<close>.
\<close>

definition Lexer :: "tokendef list \<Rightarrow> error + lexer" where
  "Lexer defs =
     (case map_makedef defs of
        Inl e \<Rightarrow> Inl e
      | Inr ds \<Rightarrow>
          let this = \<lparr>definitions = ds, keepws = False\<rparr> in
          if findtoken ''whitespace'' this = - 1
          then (case define_tok (Named ''whitespace'' (Str default_whitespace)) None this of
                  Inl e \<Rightarrow> Inl e
                | Inr this' \<Rightarrow> Inr (this'\<lparr>keepws := False\<rparr>))
          else Inr this)"

text \<open>
  \<^verbatim>\<open>compile()\<close> builds the source of the unioned pattern and the list of names:
  \<^verbatim>\<open>for (let [k, v] of this.definitions) { if (v) { tokennames.push(k); src.push('(' + v + ')') } }
  let re = new RegExp(src.join('|'), 'g')\<close>.
\<close>

record compiled =
  re :: string
  tokennames :: "string list"

fun join :: "string \<Rightarrow> string list \<Rightarrow> string" where
  "join sep [] = []"
| "join sep [x] = x"
| "join sep (x # y # ys) = x @ sep @ join sep (y # ys)"

definition compile :: "lexer \<Rightarrow> compiled" where
  "compile lx =
     (let kept_defs = filter (\<lambda>(k, v). truthy v) (definitions lx) in
      \<lparr>re = join ''|'' (map (\<lambda>(k, v). ''('' @ to_string v @ '')'') kept_defs),
       tokennames = map fst kept_defs\<rparr>)"

text \<open>
  The regular-expression engine is outside the program. One element of
  \<^verbatim>\<open>str.matchAll(re)\<close> is seen through \<^verbatim>\<open>m.index\<close>, \<^verbatim>\<open>m[0]\<close> and the capture groups
  \<^verbatim>\<open>m.slice(1)\<close>, where a group that took no part in the match is \<^verbatim>\<open>undefined\<close>; the
  engine itself is a parameter of the tokenizer, from the pattern source and the input to
  the matches.
\<close>

record rmatch =
  index :: nat
  matched :: string
  groups :: "string option list"

type_synonym engine = "string \<Rightarrow> string \<Rightarrow> rmatch list"

text \<open>
  \<^verbatim>\<open>unknownhandler(token)\<close> returns the token to add, or throws; the default is
  \<^verbatim>\<open>unknownhandler(token) { throw token }\<close>.
\<close>

type_synonym handler = "token \<Rightarrow> error + token"

definition unknownhandler :: handler where
  "unknownhandler token = Inl (ThrownToken token)"

text \<open>
  The body of \<^verbatim>\<open>this.tokenizer\<close>: the loop \<^verbatim>\<open>for (let m of str.matchAll(re))\<close> with its
  variables \<^verbatim>\<open>tokens\<close> and \<^verbatim>\<open>lastmatch\<close>, and the code after the loop once the matches are
  used up. The group test \<^verbatim>\<open>!!x\<close> fails on \<^verbatim>\<open>undefined\<close> and on the empty string.
\<close>

fun tokenizer_loop ::
  "string list \<Rightarrow> bool \<Rightarrow> handler \<Rightarrow> string \<Rightarrow> rmatch list \<Rightarrow> token list \<Rightarrow> nat
     \<Rightarrow> error + token list"
where
  "tokenizer_loop names kws h str [] toks lastmatch =
     (if lastmatch < length str then
        (case h \<lparr>tok_name = Some ''unknown'', tok_text = drop lastmatch str,
                 tok_cursor = lastmatch\<rparr> of
           Inl e \<Rightarrow> Inl e
         | Inr t \<Rightarrow> Inr (toks @ [t]))
      else Inr toks)"
| "tokenizer_loop names kws h str (m # ms) toks lastmatch =
     (case (if index m > lastmatch then
              (case h \<lparr>tok_name = Some ''unknown'', tok_text = slice lastmatch (index m) str,
                       tok_cursor = lastmatch\<rparr> of
                 Inl e \<Rightarrow> Inl e
               | Inr t \<Rightarrow> Inr (toks @ [t]))
            else Inr toks) of
        Inl e \<Rightarrow> Inl e
      | Inr toks1 \<Rightarrow>
          let tokenno = findIndex (\<lambda>x. case x of None \<Rightarrow> False | Some g \<Rightarrow> g \<noteq> []) (groups m);
              name = element names tokenno
          in if name \<noteq> Some ''whitespace'' \<or> kws then
               if length (matched m) = 0 then Inl (NoInputConsumed name (index m))
               else tokenizer_loop names kws h str ms
                      (toks1 @ [\<lparr>tok_name = name, tok_text = matched m, tok_cursor = index m\<rparr>])
                      (index m + length (matched m))
             else tokenizer_loop names kws h str ms toks1 (index m + length (matched m)))"

text \<open>
  \<^verbatim>\<open>tokenize(str)\<close>: compile, then run the tokenizer from \<^verbatim>\<open>tokens = [], lastmatch = 0\<close>.
\<close>

definition tokenize :: "engine \<Rightarrow> handler \<Rightarrow> lexer \<Rightarrow> string \<Rightarrow> error + token list" where
  "tokenize matchAll h lx str =
     (let c = compile lx in
      tokenizer_loop (tokennames c) (keepws lx) h str (matchAll (re c) str) [] 0)"

section \<open>The Lexer of stringlexer.js\<close>

text \<open>
  \<^verbatim>\<open>compile()\<close> of \<^verbatim>\<open>stringlexer.js\<close> takes every entry of the object \<^verbatim>\<open>this.tokens\<close>, here
  the list of its entries in order:
  \<^verbatim>\<open>for (let [k, v] of Object.entries(this.tokens)) { tokennames.push(k); src.push('(' + v + ')') }\<close>.
\<close>

definition compile_stringlexer :: "(string \<times> string) list \<Rightarrow> compiled" where
  "compile_stringlexer entries =
     \<lparr>re = join ''|'' (map (\<lambda>(k, v). ''('' @ v @ '')'') entries),
      tokennames = map fst entries\<rparr>"

text \<open>
  Its tokenizer is the same loop without the test of \<^verbatim>\<open>m[0].length\<close>.
\<close>

fun tokenizer_loop_stringlexer ::
  "string list \<Rightarrow> bool \<Rightarrow> handler \<Rightarrow> string \<Rightarrow> rmatch list \<Rightarrow> token list \<Rightarrow> nat
     \<Rightarrow> error + token list"
where
  "tokenizer_loop_stringlexer names kws h str [] toks lastmatch =
     (if lastmatch < length str then
        (case h \<lparr>tok_name = Some ''unknown'', tok_text = drop lastmatch str,
                 tok_cursor = lastmatch\<rparr> of
           Inl e \<Rightarrow> Inl e
         | Inr t \<Rightarrow> Inr (toks @ [t]))
      else Inr toks)"
| "tokenizer_loop_stringlexer names kws h str (m # ms) toks lastmatch =
     (case (if index m > lastmatch then
              (case h \<lparr>tok_name = Some ''unknown'', tok_text = slice lastmatch (index m) str,
                       tok_cursor = lastmatch\<rparr> of
                 Inl e \<Rightarrow> Inl e
               | Inr t \<Rightarrow> Inr (toks @ [t]))
            else Inr toks) of
        Inl e \<Rightarrow> Inl e
      | Inr toks1 \<Rightarrow>
          let tokenno = findIndex (\<lambda>x. case x of None \<Rightarrow> False | Some g \<Rightarrow> g \<noteq> []) (groups m);
              name = element names tokenno
          in if name \<noteq> Some ''whitespace'' \<or> kws then
               tokenizer_loop_stringlexer names kws h str ms
                 (toks1 @ [\<lparr>tok_name = name, tok_text = matched m, tok_cursor = index m\<rparr>])
                 (index m + length (matched m))
             else tokenizer_loop_stringlexer names kws h str ms toks1
                    (index m + length (matched m)))"

text \<open>
  \<^verbatim>\<open>tokenize(str)\<close> of \<^verbatim>\<open>stringlexer.js\<close> returns
  \<^verbatim>\<open>{ tokens: this.tokenizer(str), cursor: 0, ast: [] }\<close>.
\<close>

definition tokenize_stringlexer ::
  "engine \<Rightarrow> handler \<Rightarrow> (string \<times> string) list \<Rightarrow> bool \<Rightarrow> string \<Rightarrow> error + state"
where
  "tokenize_stringlexer matchAll h entries kws str =
     (let c = compile_stringlexer entries in
      case tokenizer_loop_stringlexer (tokennames c) kws h str (matchAll (re c) str) [] 0 of
        Inl e \<Rightarrow> Inl e
      | Inr toks \<Rightarrow> Inr (init_state toks))"

section \<open>Vocabulary of the properties\<close>

text \<open>The name the tokenizer gives a match, and whether the match becomes a token.\<close>

definition match_name :: "string list \<Rightarrow> rmatch \<Rightarrow> string option" where
  "match_name names m =
     element names (findIndex (\<lambda>x. case x of None \<Rightarrow> False | Some g \<Rightarrow> g \<noteq> []) (groups m))"

definition kept :: "string list \<Rightarrow> bool \<Rightarrow> rmatch \<Rightarrow> bool" where
  "kept names kws m = (match_name names m \<noteq> Some ''whitespace'' \<or> kws)"

text \<open>
  The value of \<^verbatim>\<open>lastmatch\<close> when the loop reaches match number \<open>i\<close> (and after the
  loop, for \<open>i = length ms\<close>): its initial value, or the end of the match before.
\<close>

definition lastmatch_at :: "nat \<Rightarrow> rmatch list \<Rightarrow> nat \<Rightarrow> nat" where
  "lastmatch_at l0 ms i =
     (if i = 0 then l0 else index (ms ! (i - 1)) + length (matched (ms ! (i - 1))))"

text \<open>The token made for the unmatched text from \<open>a\<close> up to \<open>b\<close>.\<close>

definition unknown_span :: "string \<Rightarrow> nat \<Rightarrow> nat \<Rightarrow> token" where
  "unknown_span str a b =
     \<lparr>tok_name = Some ''unknown'', tok_text = slice a b str, tok_cursor = a\<rparr>"

text \<open>The name a constructor argument defines.\<close>

definition def_name :: "tokendef \<Rightarrow> string" where
  "def_name d = (case d of Literal s \<Rightarrow> s | Named k v \<Rightarrow> k)"







text \<open>No argument of the constructor has the value \<^verbatim>\<open>null\<close> or \<^verbatim>\<open>undefined\<close>.\<close>

definition no_nullish :: "tokendef list \<Rightarrow> bool" where
  "no_nullish defs =
     list_all (\<lambda>d. case d of Literal s \<Rightarrow> True | Named k v \<Rightarrow> v \<noteq> Null \<and> v \<noteq> Undefined) defs"

section \<open>Example inputs\<close>

text \<open>
  The tokens of \<^verbatim>\<open>1++\<close>, the state after the number has been matched, the state
  after \<^verbatim>\<open>match('+') && cut(1)\<close> from there, and the tail of the README's rule
  \<^verbatim>\<open>many(bt(() => add_op() && cut(1) && addend()))\<close>.
\<close>

definition ex_tokens :: "token list" where
  "ex_tokens =
     [\<lparr>tok_name = Some ''number'', tok_text = ''1'', tok_cursor = 0\<rparr>,
      \<lparr>tok_name = Some ''+'', tok_text = ''+'', tok_cursor = 1\<rparr>,
      \<lparr>tok_name = Some ''+'', tok_text = ''+'', tok_cursor = 2\<rparr>]"

definition ex_start :: state where
  "ex_start = \<lparr>tokens = ex_tokens, cursor = 1, ast = [Tok (ex_tokens ! 0)], cut = None\<rparr>"

definition ex_committed :: state where
  "ex_committed =
     \<lparr>tokens = ex_tokens, cursor = 2, ast = [Tok (ex_tokens ! 0), Tok (ex_tokens ! 1)],
      cut = Some \<lparr>label = NumLabel 1, at = 2\<rparr>\<rparr>"

definition ex_tail :: parser where
  "ex_tail = bt (andthen (match ''+'') (andthen (cut_here (NumLabel 1)) (match ''number'')))"

definition ex_frames :: "frame list" where
  "ex_frames = [NodeFrame ''expr'' 0 [], AltRight (match ''(''), AltLeft (match ''number'')]"

text \<open>A sequence that fails at its second step, after the first has pushed a token.\<close>

definition ex_seq :: parser where
  "ex_seq = andthen (match ''+'') (match ''number'')"

text \<open>
  The lexer \<^verbatim>\<open>new Lexer({number: /[0-9]+/}, '+', '-')\<close>, the entries of \<^verbatim>\<open>this.tokens\<close> in
  \<^verbatim>\<open>stringlexer.js\<close> after \<^verbatim>\<open>define('number', /[0-9]+/)\<close>, and what \<^verbatim>\<open>matchAll\<close> yields for
  their patterns on the input \<^verbatim>\<open>12 @ 7\<close>: the number, the two blanks and the number, with
  \<^verbatim>\<open>@\<close> at index 3 unmatched. The handler renames the unknown token, as the one of
  \<^verbatim>\<open>tests/csv.js\<close> does.
\<close>

definition ex_defs :: "tokendef list" where
  "ex_defs = [Named ''number'' (RegExp ''[0-9]+''), Literal ''+'', Literal ''-'']"

definition ex_lexer :: lexer where
  "ex_lexer =
     \<lparr>definitions = [(''number'', Str ''[0-9]+''), (''+'', Str [CHR 0x5C, CHR ''+'']),
                     (''-'', Str ''-''), (''whitespace'', Str default_whitespace)],
      keepws = False\<rparr>"

definition ex_entries :: "(string \<times> string) list" where
  "ex_entries = [(''whitespace'', default_whitespace), (''number'', ''[0-9]+'')]"




definition ex_rename :: handler where
  "ex_rename token = Inr (token\<lparr>tok_name := Some ''unquoted''\<rparr>)"


text \<open>
  \<^verbatim>\<open>new Lexer({a: /a*/})\<close> and, for \<^verbatim>\<open>stringlexer.js\<close>, \<^verbatim>\<open>define('a', /a*/)\<close>. On the input
  \<^verbatim>\<open>a\<close> the pattern matches \<^verbatim>\<open>a\<close> at index 0 and the empty string at index 1, the end of
  the input; the group of \<^verbatim>\<open>a*\<close> then holds the empty string.
\<close>

definition ex_star_defs :: "tokendef list" where
  "ex_star_defs = [Named ''a'' (RegExp ''a*'')]"

definition ex_star_lexer :: lexer where
  "ex_star_lexer =
     \<lparr>definitions = [(''a'', Str ''a*''), (''whitespace'', Str default_whitespace)],
      keepws = False\<rparr>"

definition ex_star_entries :: "(string \<times> string) list" where
  "ex_star_entries = [(''whitespace'', default_whitespace), (''a'', ''a*'')]"

definition ex_star_engine :: engine where
  "ex_star_engine r str =
     (if r = re (compile ex_star_lexer) \<and> str = ''a'' then
        [\<lparr>index = 0, matched = ''a'', groups = [Some ''a'', None]\<rparr>,
         \<lparr>index = 1, matched = [], groups = [Some [], None]\<rparr>]
      else if r = re (compile_stringlexer ex_star_entries) \<and> str = ''a'' then
        [\<lparr>index = 0, matched = ''a'', groups = [None, Some ''a'']\<rparr>,
         \<lparr>index = 1, matched = [], groups = [None, Some []]\<rparr>]
      else [])"

text \<open>
  Two of the definitions of \<^verbatim>\<open>tests/csv.js\<close>, \<^verbatim>\<open>{ comma: ',' }\<close> and
  \<^verbatim>\<open>{ whitespace: false }\<close>, and the one match of their pattern \<^verbatim>\<open>(,)\<close> in \<^verbatim>\<open>a, b\<close>.
\<close>

definition ex_csv_defs :: "tokendef list" where
  "ex_csv_defs = [Named ''comma'' (Str '',''), Named ''whitespace'' (Bool False)]"

definition ex_csv_lexer :: lexer where
  "ex_csv_lexer =
     \<lparr>definitions = [(''comma'', Str '',''), (''whitespace'', Bool False)], keepws = False\<rparr>"

definition ex_csv_engine :: engine where
  "ex_csv_engine r str =
     (if r = ''(,)'' \<and> str = ''a, b'' then
        [\<lparr>index = 1, matched = '','', groups = [Some '','']\<rparr>]
      else [])"

text \<open>
  The example state with its tokens as objects: the store holds the three tokens, the
  tokens array their addresses, and the stack the address of the first.
\<close>

definition ex_ref_start :: ref_state where
  "ex_ref_start =
     \<lparr>store = ex_tokens, ref_tokens = [0, 1, 2], ref_cursor = 1, ref_ast = [RefTok 0],
      ref_cut = None\<rparr>"




text \<open>
  \<^verbatim>\<open>new Lexer({a: 'a'}, {a: false})\<close>, two definitions of one name, and the one match of
  their pattern in \<^verbatim>\<open>a\<close>.
\<close>

definition ex_dup_defs :: "tokendef list" where
  "ex_dup_defs = [Named ''a'' (Str ''a''), Named ''a'' (Bool False)]"

definition ex_dup_lexer :: lexer where
  "ex_dup_lexer =
     \<lparr>definitions = [(''a'', Str ''a''), (''a'', Bool False),
                     (''whitespace'', Str default_whitespace)],
      keepws = False\<rparr>"

definition ex_dup_engine :: engine where
  "ex_dup_engine r str =
     (if r = re (compile ex_dup_lexer) \<and> str = ''a'' then
        [\<lparr>index = 0, matched = ''a'', groups = [Some ''a'', None]\<rparr>]
      else [])"

section \<open>Restore and the cut\<close>

lemma length_set_length: "length (set_length n xs) = n"
  by (simp add: set_length_def)

lemma set_length_append: "set_length (length xs) (xs @ ys) = xs"
  by (simp add: set_length_def)

lemma set_length_take: "n \<le> length xs \<Longrightarrow> set_length n xs = take n xs"
  by (simp add: set_length_def)

lemma restore_fires:
  "cut s = Some c \<Longrightarrow> saved_cursor ck \<le> at c \<Longrightarrow> restore ck s = Inl (CutAbort s)"
  by (simp add: restore_def)

lemma restore_plain:
  "(case cut s of None \<Rightarrow> True | Some c \<Rightarrow> at c < saved_cursor ck) \<Longrightarrow>
   restore ck s =
     Inr (False, s\<lparr>cursor := saved_cursor ck, ast := set_length (astlen ck) (ast s)\<rparr>)"
  by (auto simp add: restore_def split: option.splits)

text \<open>No combinator catches: what the inner parser throws, every level around it throws.\<close>

lemma wrap_throw:
  "p s = Inl e \<Longrightarrow> (\<And>q. f = AltRight q \<Longrightarrow> q s = Inr (False, s)) \<Longrightarrow> wrap f p s = Inl e"
  by (cases f) (simp_all add: bt_def orelse_def andthen_def nodefn_def)

lemma enclose_throw:
  "p s = Inl e \<Longrightarrow> (\<forall>q. AltRight q \<in> set fs \<longrightarrow> q s = Inr (False, s)) \<Longrightarrow>
   enclose fs p s = Inl e"
  by (induction fs) (simp_all add: wrap_throw)

lemma many_throw: "p s = Inl e \<Longrightarrow> many p s = Some (Inl e)"
  by (simp add: many_def many_loop.simps)

lemma many_parsers_throw: "p s = Inl e \<Longrightarrow> many_parsers p s = Some (Inl e)"
  by (simp add: many_parsers.simps)

text \<open>
  C1. In a state whose cut marker is \<open>{label = L, at = K}\<close>, restoring a checkpoint whose
  cursor is at most \<open>K\<close> throws the live state, marker included, and a parser that ends in
  such a restore throws it through any nesting of \<open>bt\<close>, alternation, sequence and node
  around it, and through \<open>many\<close>; restoring a checkpoint whose cursor is greater than \<open>K\<close>
  resets cursor and stack length and returns false.
\<close>

theorem cut_fires_at_or_before_marker:
  assumes "cut s = Some \<lparr>label = L, at = K\<rparr>"
  shows "(saved_cursor ck \<le> K \<longrightarrow>
            restore ck s = Inl (CutAbort s) \<and>
            (\<forall>p s0 fs. p s0 = restore ck s \<and>
                       (\<forall>q. AltRight q \<in> set fs \<longrightarrow> q s0 = Inr (False, s0)) \<longrightarrow>
               enclose fs p s0 = Inl (CutAbort s) \<and>
               many (enclose fs p) s0 = Some (Inl (CutAbort s)) \<and>
               many_parsers (enclose fs p) s0 = Some (Inl (CutAbort s)))) \<and>
         (K < saved_cursor ck \<longrightarrow>
            restore ck s =
              Inr (False, s\<lparr>cursor := saved_cursor ck, ast := set_length (astlen ck) (ast s)\<rparr>))"
proof (intro conjI impI allI)
  assume le: "saved_cursor ck \<le> K"
  with assms show fires: "restore ck s = Inl (CutAbort s)"
    by (simp add: restore_fires)
  fix p :: parser and s0 fs
  assume "p s0 = restore ck s \<and> (\<forall>q. AltRight q \<in> set fs \<longrightarrow> q s0 = Inr (False, s0))"
  with fires have enc: "enclose fs p s0 = Inl (CutAbort s)"
    by (simp add: enclose_throw)
  then show "enclose fs p s0 = Inl (CutAbort s)" .
  from enc show "many (enclose fs p) s0 = Some (Inl (CutAbort s))"
    by (rule many_throw)
  from enc show "many_parsers (enclose fs p) s0 = Some (Inl (CutAbort s))"
    by (rule many_parsers_throw)
next
  assume "K < saved_cursor ck"
  with assms show "restore ck s =
      Inr (False, s\<lparr>cursor := saved_cursor ck, ast := set_length (astlen ck) (ast s)\<rparr>)"
    by (simp add: restore_plain)
qed

lemma ex_tail_restores: "ex_tail ex_start = restore (save ex_start) ex_committed"
  by (simp add: ex_tail_def ex_start_def ex_committed_def ex_tokens_def bt_def andthen_def
      match_def is_tok_def keep_def cut_here_def save_def numeral_2_eq_2)

theorem cut_fires_witness:
  "cut ex_committed = Some \<lparr>label = NumLabel 1, at = 2\<rparr> \<and>
   saved_cursor (save ex_start) \<le> 2 \<and>
   restore (save ex_start) ex_committed = Inl (CutAbort ex_committed) \<and>
   enclose ex_frames ex_tail ex_start = Inl (CutAbort ex_committed) \<and>
   many (enclose ex_frames ex_tail) ex_start = Some (Inl (CutAbort ex_committed)) \<and>
   (2::nat) < saved_cursor \<lparr>saved_cursor = 3, astlen = 2\<rparr> \<and>
   restore \<lparr>saved_cursor = 3, astlen = 2\<rparr> ex_committed = Inr (False, ex_committed\<lparr>cursor := 3\<rparr>)"
proof -
  have h: "cut ex_committed = Some \<lparr>label = NumLabel 1, at = 2\<rparr>"
    by (simp add: ex_committed_def)
  have le: "saved_cursor (save ex_start) \<le> 2"
    by (simp add: save_def ex_start_def)
  have alt: "\<forall>q. AltRight q \<in> set ex_frames \<longrightarrow> q ex_start = Inr (False, ex_start)"
    by (simp add: ex_frames_def match_def is_tok_def ex_start_def ex_tokens_def)
  from cut_fires_at_or_before_marker[OF h, of "save ex_start"] le
  have fires: "restore (save ex_start) ex_committed = Inl (CutAbort ex_committed)"
    and through: "\<And>p s0 fs. p s0 = restore (save ex_start) ex_committed \<Longrightarrow>
        \<forall>q. AltRight q \<in> set fs \<longrightarrow> q s0 = Inr (False, s0) \<Longrightarrow>
        enclose fs p s0 = Inl (CutAbort ex_committed) \<and>
        many (enclose fs p) s0 = Some (Inl (CutAbort ex_committed))"
    by blast+
  from cut_fires_at_or_before_marker[OF h, of "\<lparr>saved_cursor = 3, astlen = 2\<rparr>"]
  have plain: "restore \<lparr>saved_cursor = 3, astlen = 2\<rparr> ex_committed =
      Inr (False, ex_committed\<lparr>cursor := 3\<rparr>)"
    by (simp add: ex_committed_def set_length_def)
  from h le fires through[of ex_tail ex_start ex_frames, OF ex_tail_restores alt] plain show ?thesis by simp
qed

text \<open>
  C8. A restore that returns changes the cursor and the length of the stack and nothing
  else: tokens and cut marker are those of the state before, and a marker recorded
  strictly below the checkpoint's cursor is still set afterwards.
\<close>

theorem restore_changes_cursor_and_stack_only:
  "(\<forall>ok s'. restore ck s = Inr (ok, s') \<longrightarrow>
       \<not> ok \<and>
       s' = s\<lparr>cursor := saved_cursor ck, ast := set_length (astlen ck) (ast s)\<rparr> \<and>
       tokens s' = tokens s \<and> cut s' = cut s \<and>
       length (ast s') = astlen ck \<and>
       (astlen ck \<le> length (ast s) \<longrightarrow> ast s' = take (astlen ck) (ast s))) \<and>
   (\<forall>c. cut s = Some c \<and> at c < saved_cursor ck \<longrightarrow>
       (\<exists>s'. restore ck s = Inr (False, s') \<and> cut s' = Some c))"
  by (auto simp add: restore_def length_set_length set_length_take
      split: if_splits option.splits)

theorem restore_changes_cursor_and_stack_only_witness:
  "restore \<lparr>saved_cursor = 3, astlen = 1\<rparr> ex_committed =
     Inr (False, ex_committed\<lparr>cursor := 3, ast := [Tok (ex_tokens ! 0)]\<rparr>) \<and>
   tokens (ex_committed\<lparr>cursor := 3, ast := [Tok (ex_tokens ! 0)]\<rparr>) = tokens ex_committed \<and>
   cut ex_committed = Some \<lparr>label = NumLabel 1, at = 2\<rparr> \<and>
   at \<lparr>label = NumLabel 1, at = 2\<rparr> < saved_cursor \<lparr>saved_cursor = 3, astlen = 1\<rparr> \<and>
   cut (ex_committed\<lparr>cursor := 3, ast := [Tok (ex_tokens ! 0)]\<rparr>) =
     Some \<lparr>label = NumLabel 1, at = 2\<rparr>"
proof -
  have r: "restore \<lparr>saved_cursor = 3, astlen = 1\<rparr> ex_committed =
      Inr (False, ex_committed\<lparr>cursor := 3, ast := [Tok (ex_tokens ! 0)]\<rparr>)"
    by (simp add: restore_def ex_committed_def set_length_def)
  from restore_changes_cursor_and_stack_only
         [of "\<lparr>saved_cursor = 3, astlen = 1\<rparr>" ex_committed] r
  have "tokens (ex_committed\<lparr>cursor := 3, ast := [Tok (ex_tokens ! 0)]\<rparr>) = tokens ex_committed \<and>
        cut (ex_committed\<lparr>cursor := 3, ast := [Tok (ex_tokens ! 0)]\<rparr>) = cut ex_committed"
    by blast
  with r show ?thesis by (simp add: ex_committed_def)
qed

text \<open>
  C2. If \<open>p\<close> fails and the state it leaves has no cut marker at or after the cursor of
  the call, then \<open>bt p\<close> returns false with the cursor of the call and a stack of the
  length it had at the call (the very stack of the call when \<open>p\<close> only pushed); if \<open>p\<close>
  succeeds, \<open>bt p\<close> succeeds with the state \<open>p\<close> left.
\<close>

theorem bt_restores_on_failure:
  "(\<forall>s1. p s = Inr (False, s1) \<and>
         (case cut s1 of None \<Rightarrow> True | Some c \<Rightarrow> at c < cursor s) \<longrightarrow>
       (\<exists>s2. bt p s = Inr (False, s2) \<and>
             cursor s2 = cursor s \<and>
             length (ast s2) = length (ast s) \<and>
             ast s2 = set_length (length (ast s)) (ast s1) \<and>
             (\<forall>pushed. ast s1 = ast s @ pushed \<longrightarrow> ast s2 = ast s) \<and>
             tokens s2 = tokens s1 \<and> cut s2 = cut s1)) \<and>
   (\<forall>s1. p s = Inr (True, s1) \<longrightarrow> bt p s = Inr (True, s1))"
  by (auto simp add: bt_def save_def restore_def length_set_length set_length_append
      split: option.splits)

theorem bt_restores_on_failure_witness:
  "ex_seq ex_start =
     Inr (False, ex_start\<lparr>cursor := 2, ast := [Tok (ex_tokens ! 0), Tok (ex_tokens ! 1)]\<rparr>) \<and>
   bt ex_seq ex_start = Inr (False, ex_start) \<and>
   andthen (match ''+'') (match ''+'') ex_start =
     Inr (True, ex_start\<lparr>cursor := 3,
                         ast := [Tok (ex_tokens ! 0), Tok (ex_tokens ! 1), Tok (ex_tokens ! 2)]\<rparr>) \<and>
   bt (andthen (match ''+'') (match ''+'')) ex_start =
     Inr (True, ex_start\<lparr>cursor := 3,
                         ast := [Tok (ex_tokens ! 0), Tok (ex_tokens ! 1), Tok (ex_tokens ! 2)]\<rparr>)"
proof -
  let ?s1 = "ex_start\<lparr>cursor := 2, ast := [Tok (ex_tokens ! 0), Tok (ex_tokens ! 1)]\<rparr>"
  let ?s3 = "ex_start\<lparr>cursor := 3,
               ast := [Tok (ex_tokens ! 0), Tok (ex_tokens ! 1), Tok (ex_tokens ! 2)]\<rparr>"
  have f: "ex_seq ex_start = Inr (False, ?s1)"
    by (simp add: ex_seq_def ex_start_def ex_tokens_def andthen_def match_def is_tok_def
        keep_def numeral_2_eq_2)
  have nocut: "(case cut ?s1 of None \<Rightarrow> True | Some c \<Rightarrow> at c < cursor ex_start)"
    by (simp add: ex_start_def)
  have app: "ast ?s1 = ast ex_start @ [Tok (ex_tokens ! 1)]"
    by (simp add: ex_start_def)
  from bt_restores_on_failure[of ex_seq ex_start] f nocut
  obtain s2 where s2: "bt ex_seq ex_start = Inr (False, s2)" "cursor s2 = cursor ex_start"
      "\<forall>pushed. ast ?s1 = ast ex_start @ pushed \<longrightarrow> ast s2 = ast ex_start"
      "tokens s2 = tokens ?s1" "cut s2 = cut ?s1"
    by blast
  from s2(3) app have "ast s2 = ast ex_start" by blast
  with s2(2,4,5) have "s2 = ex_start" by (simp add: ex_start_def)
  with s2(1) have b: "bt ex_seq ex_start = Inr (False, ex_start)" by simp
  have g: "andthen (match ''+'') (match ''+'') ex_start = Inr (True, ?s3)"
    by (simp add: ex_start_def ex_tokens_def andthen_def match_def is_tok_def
        keep_def numeral_2_eq_2 numeral_3_eq_3)
  from bt_restores_on_failure[of "andthen (match ''+'') (match ''+'')" ex_start] g
  have "bt (andthen (match ''+'') (match ''+'')) ex_start = Inr (True, ?s3)"
    by blast
  with f b g show ?thesis by simp
qed

text \<open>
  On the values of the tokens \<open>keep\<close> does what C5 says of it: with a token at
  the cursor it appends that token to the stack, advances the cursor by one and succeeds;
  otherwise it fails and the state is the one it was given.
\<close>

lemma keep_on_values:
  "(cursor s < length (tokens s) \<longrightarrow>
      keep s = Inr (True, s\<lparr>ast := ast s @ [Tok (tokens s ! cursor s)],
                             cursor := cursor s + 1\<rparr>)) \<and>
   (\<not> cursor s < length (tokens s) \<longrightarrow> keep s = Inr (False, s))"
  by (simp add: keep_def)

section \<open>Which object keep pushes\<close>

text \<open>Both functions are \<open>keep\<close> on the values.\<close>

lemma deref_append: "item_within (length st) it \<Longrightarrow> deref (st @ xs) it = deref st it"
  by (induction it) (auto simp add: nth_append list_all_iff)

lemma keep_parsers_value:
  "keep_parsers s = Inr (ok, s') \<Longrightarrow> keep (value_of s) = Inr (ok, value_of s')"
  by (auto simp add: keep_parsers_def keep_def value_of_def split: if_splits)

lemma keep_jsparser_value:
  assumes "well_formed s" and "keep_jsparser s = Inr (ok, s')"
  shows "keep (value_of s) = Inr (ok, value_of s')"
proof (cases "ref_cursor s < length (ref_tokens s)")
  case False
  with assms(2) show ?thesis by (auto simp add: keep_jsparser_def keep_def value_of_def)
next
  case True
  from assms(1) have toks: "\<forall>a\<in>set (ref_tokens s). a < length (store s)"
    and its: "\<forall>it\<in>set (ref_ast s). item_within (length (store s)) it"
    by (simp_all add: well_formed_def list_all_iff)
  from toks have "map (\<lambda>a. (store s @ [store s ! (ref_tokens s ! ref_cursor s)]) ! a) (ref_tokens s) =
      map (\<lambda>a. store s ! a) (ref_tokens s)"
    by (simp add: nth_append)
  moreover from its have
    "map (deref (store s @ [store s ! (ref_tokens s ! ref_cursor s)])) (ref_ast s) =
      map (deref (store s)) (ref_ast s)"
    by (simp add: deref_append)
  ultimately show ?thesis using True assms(2)
    by (auto simp add: keep_jsparser_def keep_def value_of_def)
qed

text \<open>
  \<^verbatim>\<open>jsparser.js\<close> pushes a copy: an object that is new, so none of the tokens array, and
  that has the value of the token at the cursor; the store before is unchanged.
\<close>

lemma keep_jsparser_pushes_a_copy:
  assumes "ref_cursor s < length (ref_tokens s)" and "well_formed s"
  shows "\<exists>s'. keep_jsparser s = Inr (True, s') \<and> ref_tokens s' = ref_tokens s \<and>
           ref_cursor s' = ref_cursor s + 1 \<and>
           ref_ast s' = ref_ast s @ [RefTok (length (store s))] \<and>
           length (store s) \<notin> set (ref_tokens s) \<and>
           store s' ! length (store s) = store s ! (ref_tokens s ! ref_cursor s) \<and>
           take (length (store s)) (store s') = store s"
  using assms by (auto simp add: keep_jsparser_def well_formed_def list_all_iff)

text \<open>\<^verbatim>\<open>parsers.js\<close> pushes the address that the tokens array holds at the cursor.\<close>

lemma keep_parsers_pushes_the_object:
  assumes "ref_cursor s < length (ref_tokens s)"
  shows "\<exists>s'. keep_parsers s = Inr (True, s') \<and> store s' = store s \<and>
           ref_tokens s' = ref_tokens s \<and> ref_cursor s' = ref_cursor s + 1 \<and>
           ref_ast s' = ref_ast s @ [RefTok (ref_tokens s ! ref_cursor s)]"
  using assms by (simp add: keep_parsers_def)

text \<open>\<open>restore_ref\<close> is \<open>restore\<close> on the values.\<close>

lemma deref_Hole: "map (deref st) (replicate n RefHole) = replicate n Hole"
  by (induction n) simp_all

lemma restore_ref_value:
  "restore_ref ck s = Inr (ok, s') \<Longrightarrow> restore ck (value_of s) = Inr (ok, value_of s')"
  by (auto simp add: restore_ref_def restore_def value_of_def set_length_def take_map
      deref_Hole split: if_splits option.splits)

text \<open>
  C5. \<^verbatim>\<open>keep\<close> of \<^verbatim>\<open>parsers.js\<close> pushes the token object of the tokens array and no copy.
  From the example state, with the cursor at the token at address 1, it pushes address 1,
  and the assignment \<^verbatim>\<open>state.ast[1].name = 'x'\<close> then renames the second token of the
  tokens array; a restore of the checkpoint of the example state resets cursor and stack
  and leaves the token renamed, so the state is not the one before. \<^verbatim>\<open>keep\<close> of
  \<^verbatim>\<open>jsparser.js\<close> pushes the new address 3; after the same assignment the second token of
  the tokens array has its name \<^verbatim>\<open>+\<close>, and after the restore the values of the state are
  those of the example state.
\<close>

theorem parsers_keep_pushes_the_token_itself:
  "keep_parsers ex_ref_start =
     Inr (True, ex_ref_start\<lparr>ref_ast := [RefTok 0, RefTok 1], ref_cursor := 2\<rparr>) \<and>
   ref_tokens ex_ref_start ! ref_cursor ex_ref_start = 1 \<and>
   tok_name (tokens (value_of (assign_name 1 ''x''
       (ex_ref_start\<lparr>ref_ast := [RefTok 0, RefTok 1], ref_cursor := 2\<rparr>))) ! 1) = Some ''x'' \<and>
   restore_ref \<lparr>saved_cursor = 1, astlen = 1\<rparr> (assign_name 1 ''x''
       (ex_ref_start\<lparr>ref_ast := [RefTok 0, RefTok 1], ref_cursor := 2\<rparr>)) =
     Inr (False, assign_name 1 ''x'' ex_ref_start) \<and>
   tok_name (tokens (value_of (assign_name 1 ''x'' ex_ref_start)) ! 1) = Some ''x'' \<and>
   tok_name (tokens (value_of ex_ref_start) ! 1) = Some ''+'' \<and>
   keep_jsparser ex_ref_start =
     Inr (True, ex_ref_start\<lparr>store := ex_tokens @ [ex_tokens ! 1],
                             ref_ast := [RefTok 0, RefTok 3], ref_cursor := 2\<rparr>) \<and>
   tok_name (tokens (value_of (assign_name 3 ''x''
       (ex_ref_start\<lparr>store := ex_tokens @ [ex_tokens ! 1],
                      ref_ast := [RefTok 0, RefTok 3], ref_cursor := 2\<rparr>))) ! 1) = Some ''+'' \<and>
   restore_ref \<lparr>saved_cursor = 1, astlen = 1\<rparr> (assign_name 3 ''x''
       (ex_ref_start\<lparr>store := ex_tokens @ [ex_tokens ! 1],
                      ref_ast := [RefTok 0, RefTok 3], ref_cursor := 2\<rparr>)) =
     Inr (False, ex_ref_start\<lparr>store := ex_tokens @ [(ex_tokens ! 1)\<lparr>tok_name := Some ''x''\<rparr>]\<rparr>) \<and>
   value_of (ex_ref_start\<lparr>store := ex_tokens @ [(ex_tokens ! 1)\<lparr>tok_name := Some ''x''\<rparr>]\<rparr>) =
     value_of ex_ref_start"
  by (simp add: keep_parsers_def keep_jsparser_def restore_ref_def ex_ref_start_def
      ex_tokens_def assign_name_def value_of_def numeral_2_eq_2 numeral_3_eq_3)

section \<open>Nodes and actions\<close>

text \<open>What a node parser returns once its parser has succeeded, for any list of actions.\<close>

lemma nodefn_success:
  assumes "p s = Inr (True, s1)"
  shows "nodefn nm p count actions s =
     (if count < int (length (ast s1)) - int (length (ast s)) then
        (case run_actions actions (Node nm (drop (length (ast s)) (ast s1))) of
           Inl e \<Rightarrow> Inl e
         | Inr None \<Rightarrow> restore (save s) (s1\<lparr>ast := set_length (length (ast s)) (ast s1)\<rparr>)
         | Inr (Some n) \<Rightarrow>
             Inr (True, s1\<lparr>ast := set_length (length (ast s)) (ast s1) @ [n]\<rparr>))
      else Inr (True, s1))"
  using assms by (simp add: nodefn_def save_def Let_def split: sum.splits option.splits)

text \<open>
  C3. Let \<open>p\<close> succeed from \<open>s\<close> and leave the stack of \<open>s\<close> followed by the elements
  \<open>pushed\<close>. If there are more than \<open>minChildren\<close> of them, \<open>node nm p minChildren\<close>
  succeeds with the stack of \<open>s\<close> followed by the single node \<open>nm\<close> whose children are
  \<open>pushed\<close>; otherwise it succeeds with the state \<open>p\<close> left, the pushed elements on the
  stack as they are. \<open>cnode nm p\<close> is \<open>node nm p 1\<close>.
\<close>

theorem node_wraps_pushed_elements:
  assumes "p s = Inr (True, s1)" and "ast s1 = ast s @ pushed"
  shows "(minChildren < int (length pushed) \<longrightarrow>
            node nm p minChildren s = Inr (True, s1\<lparr>ast := ast s @ [Node nm pushed]\<rparr>)) \<and>
         (\<not> minChildren < int (length pushed) \<longrightarrow>
            node nm p minChildren s = Inr (True, s1)) \<and>
         cnode nm p = node nm p 1"
  using assms by (simp add: node_def cnode_def nodefn_success set_length_append)

theorem node_wraps_pushed_elements_witness:
  "andthen (match ''+'') (match ''+'') ex_start =
     Inr (True, ex_start\<lparr>cursor := 3, ast := ast ex_start @ [Tok (ex_tokens ! 1), Tok (ex_tokens ! 2)]\<rparr>) \<and>
   cnode ''X'' (andthen (match ''+'') (match ''+'')) ex_start =
     Inr (True, ex_start\<lparr>cursor := 3,
            ast := [Tok (ex_tokens ! 0), Node ''X'' [Tok (ex_tokens ! 1), Tok (ex_tokens ! 2)]]\<rparr>) \<and>
   match ''+'' ex_start =
     Inr (True, ex_start\<lparr>cursor := 2, ast := ast ex_start @ [Tok (ex_tokens ! 1)]\<rparr>) \<and>
   cnode ''X'' (match ''+'') ex_start =
     Inr (True, ex_start\<lparr>cursor := 2, ast := [Tok (ex_tokens ! 0), Tok (ex_tokens ! 1)]\<rparr>)"
proof -
  let ?two = "ex_start\<lparr>cursor := 3, ast := ast ex_start @ [Tok (ex_tokens ! 1), Tok (ex_tokens ! 2)]\<rparr>"
  let ?one = "ex_start\<lparr>cursor := 2, ast := ast ex_start @ [Tok (ex_tokens ! 1)]\<rparr>"
  have two: "andthen (match ''+'') (match ''+'') ex_start = Inr (True, ?two)"
    by (simp add: ex_start_def ex_tokens_def andthen_def match_def is_tok_def keep_def
        numeral_2_eq_2 numeral_3_eq_3)
  have one: "match ''+'' ex_start = Inr (True, ?one)"
    by (simp add: ex_start_def ex_tokens_def match_def is_tok_def keep_def numeral_2_eq_2)
  have "ast ?two = ast ex_start @ [Tok (ex_tokens ! 1), Tok (ex_tokens ! 2)]" by simp
  from node_wraps_pushed_elements
         [where p = "andthen (match ''+'') (match ''+'')" and s = ex_start and minChildren = 1
            and nm = "''X''", OF two this]
  have a: "cnode ''X'' (andthen (match ''+'') (match ''+'')) ex_start =
      Inr (True, ?two\<lparr>ast := ast ex_start @ [Node ''X'' [Tok (ex_tokens ! 1), Tok (ex_tokens ! 2)]]\<rparr>)"
    by simp
  have "ast ?one = ast ex_start @ [Tok (ex_tokens ! 1)]" by simp
  from node_wraps_pushed_elements
         [where p = "match ''+''" and s = ex_start and minChildren = 1 and nm = "''X''",
          OF one this]
  have b: "cnode ''X'' (match ''+'') ex_start = Inr (True, ?one)"
    by simp
  from two one a b show ?thesis by (simp add: ex_start_def)
qed

text \<open>
  C9. Let \<open>p\<close> succeed. If the stack did not grow by more than \<open>minChildren\<close>, the node
  parser succeeds with the state \<open>p\<close> left whatever its actions are, also actions that
  veto or throw on every node: none is run. If it did, the result is the one the action
  chain decides: its throw, a restore when it vetoes, the push of the node it returns.
\<close>

theorem actions_run_only_for_created_nodes:
  assumes "p s = Inr (True, s1)"
  shows "(\<not> minChildren < int (length (ast s1)) - int (length (ast s)) \<longrightarrow>
            (\<forall>actions. nodefn nm p minChildren actions s = Inr (True, s1))) \<and>
         (minChildren < int (length (ast s1)) - int (length (ast s)) \<longrightarrow>
            (\<forall>actions. nodefn nm p minChildren actions s =
               (case run_actions actions (Node nm (drop (length (ast s)) (ast s1))) of
                  Inl e \<Rightarrow> Inl e
                | Inr None \<Rightarrow> restore (save s) (s1\<lparr>ast := set_length (length (ast s)) (ast s1)\<rparr>)
                | Inr (Some n) \<Rightarrow>
                    Inr (True, s1\<lparr>ast := set_length (length (ast s)) (ast s1) @ [n]\<rparr>))))"
  using assms by (simp add: nodefn_success)

theorem actions_run_only_for_created_nodes_witness:
  "match ''+'' ex_start =
     Inr (True, ex_start\<lparr>cursor := 2, ast := [Tok (ex_tokens ! 0), Tok (ex_tokens ! 1)]\<rparr>) \<and>
   nodefn ''X'' (match ''+'') 1 [\<lambda>n. Inr None, \<lambda>n. Inl (ThrownString ''no'')] ex_start =
     Inr (True, ex_start\<lparr>cursor := 2, ast := [Tok (ex_tokens ! 0), Tok (ex_tokens ! 1)]\<rparr>) \<and>
   nodefn ''X'' (match ''+'') 0 [\<lambda>n. Inr None, \<lambda>n. Inl (ThrownString ''no'')] ex_start =
     Inr (False, ex_start)"
proof -
  let ?one = "ex_start\<lparr>cursor := 2, ast := [Tok (ex_tokens ! 0), Tok (ex_tokens ! 1)]\<rparr>"
  have one: "match ''+'' ex_start = Inr (True, ?one)"
    by (simp add: ex_start_def ex_tokens_def match_def is_tok_def keep_def numeral_2_eq_2)
  from actions_run_only_for_created_nodes
         [where p = "match ''+''" and s = ex_start and minChildren = 1 and nm = "''X''", OF one]
  have a: "nodefn ''X'' (match ''+'') 1 [\<lambda>n. Inr None, \<lambda>n. Inl (ThrownString ''no'')] ex_start =
      Inr (True, ?one)"
    by (simp add: ex_start_def)
  from actions_run_only_for_created_nodes
         [where p = "match ''+''" and s = ex_start and minChildren = 0 and nm = "''X''", OF one]
  have b: "nodefn ''X'' (match ''+'') 0 [\<lambda>n. Inr None, \<lambda>n. Inl (ThrownString ''no'')] ex_start =
      Inr (False, ex_start)"
    by (simp add: ex_start_def restore_def save_def set_length_def)
  from one a b show ?thesis by simp
qed

section \<open>Repetition\<close>

lemma many_aborts_without_progress:
  "p s = Inr (True, s') \<Longrightarrow> cursor s' = cursor s \<Longrightarrow>
   many p s = Some (Inl (ReferenceError ''cursor''))"
  by (simp add: many_def many_loop.simps)

lemma many_continues_after_progress:
  "p s = Inr (True, s') \<Longrightarrow> cursor s' \<noteq> cursor s \<Longrightarrow> many p s = many p s'"
  by (simp add: many_def many_loop.simps[of p "cursor s" s])

lemma many_stops_at_failure:
  "p s = Inr (False, s') \<Longrightarrow> many p s = Some (Inr (True, s'))"
  by (simp add: many_def many_loop.simps)

lemma many_parsers_returns_only_after_failure:
  assumes "many_parsers p s = Some r"
  shows "\<not> (\<forall>s. \<exists>s'. p s = Inr (True, s'))"
proof (rule many_parsers.raw_induct
         [where P = "\<lambda>p s r. \<not> (\<forall>s. \<exists>s'. p s = Inr (True, s'))", OF _ assms])
  fix f :: "parser \<Rightarrow> state \<Rightarrow> (error + bool \<times> state) option" and p s r
  assume IH: "\<And>p s r. f p s = Some r \<Longrightarrow> \<not> (\<forall>s. \<exists>s'. p s = Inr (True, s'))"
    and step: "(case p s of Inl e \<Rightarrow> Some (Inl e)
               | Inr (ok, s') \<Rightarrow> if ok then f p s' else Some (Inr (True, s'))) = Some r"
  show "\<not> (\<forall>s. \<exists>s'. p s = Inr (True, s'))"
  proof
    assume always: "\<forall>s. \<exists>s'. p s = Inr (True, s')"
    then obtain s' where "p s = Inr (True, s')" by blast
    with step have "f p s' = Some r" by simp
    from IH[OF this] always show False by blast
  qed
qed

lemma many_parsers_never_returns:
  assumes "\<forall>s. \<exists>s'. p s = Inr (True, s')"
  shows "many_parsers p s = None"
  using many_parsers_returns_only_after_failure[of p s] assms
  by (cases "many_parsers p s") auto

text \<open>
  C4. \<^verbatim>\<open>many\<close> of \<^verbatim>\<open>parsers.js\<close> has no progress test: over \<^verbatim>\<open>cut('L')\<close>, which
  succeeds and leaves the cursor where it is, the loop never returns and never throws,
  from any state. (\<^verbatim>\<open>many\<close> of \<^verbatim>\<open>jsparser.js\<close> throws there: \<open>many_aborts_without_progress\<close>.)
\<close>

theorem many_parsers_loops_without_progress:
  "many_parsers (cut_here (StrLabel ''L'')) s = None \<and>
   many (cut_here (StrLabel ''L'')) s = Some (Inl (ReferenceError ''cursor''))"
proof
  show "many_parsers (cut_here (StrLabel ''L'')) s = None"
    by (rule many_parsers_never_returns) (simp add: cut_here_def)
  show "many (cut_here (StrLabel ''L'')) s = Some (Inl (ReferenceError ''cursor''))"
    by (rule many_aborts_without_progress[where s' = "s\<lparr>cut := Some \<lparr>label = StrLabel ''L'', at = cursor s\<rparr>\<rparr>"])
       (simp_all add: cut_here_def)
qed

section \<open>The tokenizer loops\<close>

lemma slice_to_end: "slice a (length str) str = drop a str"
  by (simp add: slice_def)

lemma loop_Nil:
  "tokenizer_loop names kws h str [] toks lm =
     (if lm < length str then
        (case h (unknown_span str lm (length str)) of
           Inl e \<Rightarrow> Inl e
         | Inr t \<Rightarrow> Inr (toks @ [t]))
      else Inr toks)"
  by (simp add: unknown_span_def slice_to_end)

lemma loop_Cons:
  "tokenizer_loop names kws h str (m # ms) toks lm =
     (case (if index m > lm then
              (case h (unknown_span str lm (index m)) of
                 Inl e \<Rightarrow> Inl e
               | Inr t \<Rightarrow> Inr (toks @ [t]))
            else Inr toks) of
        Inl e \<Rightarrow> Inl e
      | Inr toks1 \<Rightarrow>
          if kept names kws m then
            if matched m = [] then Inl (NoInputConsumed (match_name names m) (index m))
            else tokenizer_loop names kws h str ms
                   (toks1 @ [\<lparr>tok_name = match_name names m, tok_text = matched m,
                              tok_cursor = index m\<rparr>])
                   (index m + length (matched m))
          else tokenizer_loop names kws h str ms toks1 (index m + length (matched m)))"
  by (simp add: unknown_span_def kept_def match_name_def Let_def split: sum.splits)



declare tokenizer_loop.simps [simp del]
declare tokenizer_loop_stringlexer.simps [simp del]

lemma lastmatch_at_0: "lastmatch_at l0 ms 0 = l0"
  by (simp add: lastmatch_at_def)

































lemma ex_lexer_built: "Lexer ex_defs = Inr ex_lexer"
  by (simp add: Lexer_def ex_defs_def ex_lexer_def makedef_def findtoken_def define_tok_def
      escaped_def needs_escape_def)





lemma ex_names_stringlexer:
  "tokennames (compile_stringlexer ex_entries) = [''whitespace'', ''number'']"
  by (simp add: compile_stringlexer_def ex_entries_def)














section \<open>Empty matches\<close>

text \<open>
  An empty match whose groups are parts of the match has no truthy group: its name is
  \<^verbatim>\<open>undefined\<close>, which is not \<^verbatim>\<open>'whitespace'\<close>, so it is kept whatever definition matched.
\<close>

lemma findIndex_no_truthy: "\<forall>x\<in>set xs. \<not> P x \<Longrightarrow> findIndex P xs = - 1"
  by (induction xs) (simp_all add: Let_def)

lemma empty_match_is_kept:
  assumes "\<forall>g\<in>set (groups m). g = None \<or> g = Some []"
  shows "match_name names m = None \<and> kept names kws m"
proof -
  from assms have "findIndex (\<lambda>x. case x of None \<Rightarrow> False | Some g \<Rightarrow> g \<noteq> []) (groups m) = - 1"
    by (intro findIndex_no_truthy) (auto split: option.splits)
  then show ?thesis by (simp add: match_name_def kept_def element_def)
qed

text \<open>A run of the \<^verbatim>\<open>jsparser.js\<close> tokenizer that returns has met no empty match it keeps.\<close>

lemma loop_no_empty_match:
  "tokenizer_loop names kws h str ms toks lm = Inr out \<Longrightarrow> m \<in> set ms \<Longrightarrow>
   kept names kws m \<Longrightarrow> matched m \<noteq> []"
proof (induction ms arbitrary: toks lm)
  case Nil
  then show ?case by simp
next
  case (Cons x ms)
  from Cons.prems(1) obtain toks' where
    rec: "tokenizer_loop names kws h str ms toks' (index x + length (matched x)) = Inr out"
    and head: "kept names kws x \<longrightarrow> matched x \<noteq> []"
    by (auto simp add: loop_Cons split: if_splits sum.splits)
  show ?case
  proof (cases "m = x")
    case True
    with head Cons.prems(3) show ?thesis by simp
  next
    case False
    with Cons.prems(2) have "m \<in> set ms" by simp
    from Cons.IH[OF rec this Cons.prems(3)] show ?thesis .
  qed
qed

text \<open>
  With a handler that always returns, the first empty match that is kept ends the run
  with the complaint about that match.
\<close>

lemma loop_first_empty_match:
  assumes "\<forall>u. \<exists>t. h u = Inr t"
      and "\<forall>x\<in>set pre. kept names kws x \<longrightarrow> matched x \<noteq> []"
      and "kept names kws m" and "matched m = []"
  shows "tokenizer_loop names kws h str (pre @ m # post) toks lm =
           Inl (NoInputConsumed (match_name names m) (index m))"
  using assms(2)
proof (induction pre arbitrary: toks lm)
  case Nil
  from assms(1) obtain t where "h (unknown_span str lm (index m)) = Inr t" by blast
  with assms(3,4) show ?case by (simp add: loop_Cons)
next
  case (Cons x pre)
  from assms(1) obtain t where t: "h (unknown_span str lm (index x)) = Inr t" by blast
  from Cons.prems have rest: "\<forall>x\<in>set pre. kept names kws x \<longrightarrow> matched x \<noteq> []"
    and head: "kept names kws x \<longrightarrow> matched x \<noteq> []" by simp_all
  from t head show ?case
    by (simp add: loop_Cons Cons.IH[OF rest])
qed

text \<open>
  C6. \<^verbatim>\<open>stringlexer.js\<close> does not test the length of a match. With the definition
  \<^verbatim>\<open>define('a', /a*/)\<close> and the input \<^verbatim>\<open>a\<close>, whose second match is the empty match at
  index 1, its tokenizer returns two tokens, the second with empty text and the name
  \<^verbatim>\<open>undefined\<close>; the tokenizer of \<^verbatim>\<open>jsparser.js\<close> throws on the same input.
\<close>

theorem stringlexer_keeps_empty_match:
  "tokenize_stringlexer ex_star_engine unknownhandler ex_star_entries False ''a'' =
     Inr (init_state [\<lparr>tok_name = Some ''a'', tok_text = ''a'', tok_cursor = 0\<rparr>,
                      \<lparr>tok_name = None, tok_text = [], tok_cursor = 1\<rparr>]) \<and>
   Lexer ex_star_defs = Inr ex_star_lexer \<and>
   tokenize ex_star_engine unknownhandler ex_star_lexer ''a'' = Inl (NoInputConsumed None 1)"
proof (intro conjI)
  have ne: "re (compile ex_star_lexer) \<noteq> re (compile_stringlexer ex_star_entries)"
    by (simp add: compile_def compile_stringlexer_def ex_star_lexer_def ex_star_entries_def
        truthy_def to_string_def default_whitespace_def)
  show "tokenize_stringlexer ex_star_engine unknownhandler ex_star_entries False ''a'' =
     Inr (init_state [\<lparr>tok_name = Some ''a'', tok_text = ''a'', tok_cursor = 0\<rparr>,
                      \<lparr>tok_name = None, tok_text = [], tok_cursor = 1\<rparr>])"
    using ne unfolding tokenize_stringlexer_def Let_def ex_star_engine_def
    by (simp add: compile_stringlexer_def ex_star_entries_def
        tokenizer_loop_stringlexer.simps element_def Let_def)
  show "Lexer ex_star_defs = Inr ex_star_lexer"
    by (simp add: Lexer_def ex_star_defs_def ex_star_lexer_def makedef_def findtoken_def
        define_tok_def)
  show "tokenize ex_star_engine unknownhandler ex_star_lexer ''a'' = Inl (NoInputConsumed None 1)"
    unfolding tokenize_def Let_def ex_star_engine_def
    by (simp add: compile_def ex_star_lexer_def truthy_def default_whitespace_def
        tokenizer_loop.simps element_def Let_def)
qed

section \<open>Definitions without a pattern\<close>

lemma findIndex_ge: "- 1 \<le> findIndex P xs"
  by (induction xs) (simp_all add: Let_def)

lemma findIndex_none: "findIndex P xs = - 1 \<longleftrightarrow> (\<forall>x\<in>set xs. \<not> P x)"
proof (induction xs)
  case Nil
  then show ?case by simp
next
  case (Cons x xs)
  from findIndex_ge[of P xs] have "findIndex P xs + 1 \<noteq> - 1" by arith
  with Cons show ?case by (simp add: Let_def)
qed

lemma makedef_falsy: "\<not> truthy v \<Longrightarrow> v \<noteq> Null \<Longrightarrow> v \<noteq> Undefined \<Longrightarrow> makedef (Named k v) = Inr (k, v)"
  by (cases v) (simp_all add: makedef_def truthy_def)

lemma makedef_throws: "makedef (Named k v) = Inl e \<longleftrightarrow> (v = Null \<or> v = Undefined) \<and> e = TypeError ''constructor''"
  by (cases v) (auto simp add: makedef_def)

lemma makedef_name: "makedef d = Inr (k, v) \<Longrightarrow> k = def_name d"
  by (cases d) (auto simp add: makedef_def def_name_def split: jsval.splits)

lemma map_makedef_member:
  "map_makedef defs = Inr ds \<Longrightarrow> d \<in> set defs \<Longrightarrow> \<exists>d'. makedef d = Inr d' \<and> d' \<in> set ds"
proof (induction defs arbitrary: ds)
  case Nil
  then show ?case by simp
next
  case (Cons x defs)
  from Cons.prems(1) obtain x' ds' where x': "makedef x = Inr x'"
    and ds': "map_makedef defs = Inr ds'" and ds: "ds = x' # ds'"
    by (auto split: sum.splits)
  show ?case
  proof (cases "d = x")
    case True
    with x' ds show ?thesis by simp
  next
    case False
    with Cons.prems(2) have "d \<in> set defs" by simp
    from Cons.IH[OF ds' this] ds show ?thesis by auto
  qed
qed

lemma map_makedef_names: "map_makedef defs = Inr ds \<Longrightarrow> map fst ds = map def_name defs"
proof (induction defs arbitrary: ds)
  case Nil
  then show ?case by simp
next
  case (Cons x defs)
  from Cons.prems obtain x' ds' where x': "makedef x = Inr x'"
    and ds': "map_makedef defs = Inr ds'" and ds: "ds = x' # ds'"
    by (auto split: sum.splits)
  from x' have "fst x' = def_name x" by (cases x') (simp add: makedef_name)
  with Cons.IH[OF ds'] ds show ?case by simp
qed

text \<open>The constructor adds the default whitespace exactly when no argument has that name.\<close>

lemma Lexer_definitions:
  assumes "Lexer defs = Inr lx"
  shows "\<exists>ds. map_makedef defs = Inr ds \<and> keepws lx = False \<and>
           definitions lx =
             (if ''whitespace'' \<in> def_name ` set defs then ds
              else ds @ [(''whitespace'', Str default_whitespace)])"
proof -
  from assms obtain ds where ds: "map_makedef defs = Inr ds"
    by (auto simp add: Lexer_def split: sum.splits)
  have "findtoken ''whitespace'' \<lparr>definitions = ds, keepws = False\<rparr> = - 1 \<longleftrightarrow>
        ''whitespace'' \<notin> set (map fst ds)"
    by (force simp add: findtoken_def findIndex_none)
  also have "\<dots> \<longleftrightarrow> ''whitespace'' \<notin> def_name ` set defs"
    by (simp add: map_makedef_names[OF ds])
  finally have "findtoken ''whitespace'' \<lparr>definitions = ds, keepws = False\<rparr> = - 1 \<longleftrightarrow>
        ''whitespace'' \<notin> def_name ` set defs" .
  with assms ds show ?thesis
    by (auto simp add: Lexer_def Let_def define_tok_def makedef_def split: if_splits)
qed

lemma match_name_in: "match_name names m = Some k \<Longrightarrow> k \<in> set names"
  by (auto simp add: match_name_def element_def split: if_splits)

text \<open>Every token of the output comes from the handler or bears a compiled name.\<close>

lemma loop_names:
  "tokenizer_loop names kws h str ms toks lm = Inr out \<Longrightarrow> t \<in> set out \<Longrightarrow>
   t \<in> set toks \<or> (\<exists>u. h u = Inr t) \<or> tok_name t = None \<or> (\<exists>k\<in>set names. tok_name t = Some k)"
proof (induction ms arbitrary: toks lm)
  case Nil
  then show ?case by (auto simp add: loop_Nil split: if_splits sum.splits)
next
  case (Cons m ms)
  have nm: "match_name names m = None \<or> (\<exists>k\<in>set names. match_name names m = Some k)"
    by (cases "match_name names m") (auto dest: match_name_in)
  from Cons.prems(1) nm show ?case
    by (auto simp add: loop_Cons split: if_splits sum.splits
        dest!: Cons.IH[OF _ Cons.prems(2)]) blast+
qed

lemma makedef_returns:
  "(case d of Literal s \<Rightarrow> True | Named k v \<Rightarrow> v \<noteq> Null \<and> v \<noteq> Undefined) \<Longrightarrow>
   \<exists>d'. makedef d = Inr d'"
  by (cases d) (auto simp add: makedef_def split: jsval.splits)

lemma map_makedef_returns: "no_nullish defs \<Longrightarrow> \<exists>ds. map_makedef defs = Inr ds"
proof (induction defs)
  case Nil
  then show ?case by simp
next
  case (Cons d defs)
  from Cons.prems have "case d of Literal s \<Rightarrow> True | Named k v \<Rightarrow> v \<noteq> Null \<and> v \<noteq> Undefined"
    and rest: "no_nullish defs"
    by (simp_all add: no_nullish_def)
  from makedef_returns[OF this(1)] obtain d' where "makedef d = Inr d'" by blast
  with Cons.IH[OF rest] show ?case by auto
qed

lemma Lexer_returns: "no_nullish defs \<Longrightarrow> \<exists>lx. Lexer defs = Inr lx"
proof -
  assume "no_nullish defs"
  then obtain ds where "map_makedef defs = Inr ds" using map_makedef_returns by blast
  then show ?thesis
    by (simp add: Lexer_def Let_def define_tok_def makedef_def)
qed

lemma compiled_names:
  "k \<in> set (tokennames (compile lx)) \<longleftrightarrow> (\<exists>v. (k, v) \<in> set (definitions lx) \<and> truthy v)"
  by (force simp add: compile_def Let_def)

text \<open>
  Against C10 as stated, twice. The value \<^verbatim>\<open>null\<close> is falsy, and
  \<^verbatim>\<open>new Lexer({whitespace: null})\<close> throws in \<open>makedef\<close>: there is no definition and no
  lexer. And in \<^verbatim>\<open>new Lexer({a: 'a'}, {a: false})\<close> the name \<^verbatim>\<open>a\<close> has a falsy definition,
  yet \<^verbatim>\<open>a\<close> is a compiled name and the scanner makes a token of that name from the input
  \<^verbatim>\<open>a\<close>.
\<close>

theorem falsy_definition_counterexample:
  "\<not> truthy Null \<and>
   Lexer [Named ''whitespace'' Null] = Inl (TypeError ''constructor'') \<and>
   \<not> truthy (Bool False) \<and>
   Named ''a'' (Bool False) \<in> set ex_dup_defs \<and>
   Lexer ex_dup_defs = Inr ex_dup_lexer \<and>
   tokennames (compile ex_dup_lexer) = [''a'', ''whitespace''] \<and>
   tokenize ex_dup_engine unknownhandler ex_dup_lexer ''a'' =
     Inr [\<lparr>tok_name = Some ''a'', tok_text = ''a'', tok_cursor = 0\<rparr>]"
proof (intro conjI)
  show "\<not> truthy Null" and "\<not> truthy (Bool False)"
    by (simp_all add: truthy_def)
  show "Lexer [Named ''whitespace'' Null] = Inl (TypeError ''constructor'')"
    by (simp add: Lexer_def makedef_def)
  show "Named ''a'' (Bool False) \<in> set ex_dup_defs"
    by (simp add: ex_dup_defs_def)
  show "Lexer ex_dup_defs = Inr ex_dup_lexer"
    by (simp add: Lexer_def ex_dup_defs_def ex_dup_lexer_def makedef_def findtoken_def
        define_tok_def)
  show names: "tokennames (compile ex_dup_lexer) = [''a'', ''whitespace'']"
    by (simp add: compile_def ex_dup_lexer_def truthy_def default_whitespace_def)
  show "tokenize ex_dup_engine unknownhandler ex_dup_lexer ''a'' =
     Inr [\<lparr>tok_name = Some ''a'', tok_text = ''a'', tok_cursor = 0\<rparr>]"
    unfolding tokenize_def Let_def names
    by (simp add: ex_dup_engine_def ex_dup_lexer_def tokenizer_loop.simps element_def Let_def)
qed

text \<open>
  C10, as the code has it. For arguments none of whose values is \<^verbatim>\<open>null\<close> or
  \<^verbatim>\<open>undefined\<close> the constructor returns a lexer, in which: an argument \<^verbatim>\<open>{k: v}\<close> with a
  falsy \<open>v\<close> is an entry of the definitions, found by \<open>findtoken\<close>; when its name is
  \<open>whitespace\<close> the definitions are the mapped arguments and nothing more, the default
  whitespace is not added; \<open>compile\<close> takes names and patterns from the truthy entries
  only, so a name is compiled exactly when one of its entries is truthy; and when no entry
  of the name \<open>k\<close> is truthy, no token named \<open>k\<close> is in any output, unless the unknown
  handler made it.
\<close>

theorem falsy_definition_is_kept_out_of_the_pattern:
  assumes "no_nullish defs"
  shows "\<exists>lx. Lexer defs = Inr lx \<and>
         (\<forall>k v. Named k v \<in> set defs \<and> \<not> truthy v \<longrightarrow>
            (k, v) \<in> set (definitions lx) \<and> findtoken k lx \<noteq> - 1) \<and>
         (\<forall>v. Named ''whitespace'' v \<in> set defs \<and> \<not> truthy v \<longrightarrow>
            map_makedef defs = Inr (definitions lx) \<and>
            length (definitions lx) = length defs) \<and>
         tokennames (compile lx) = map fst (filter (\<lambda>(k, v). truthy v) (definitions lx)) \<and>
         re (compile lx) =
           join ''|'' (map (\<lambda>(k, v). ''('' @ to_string v @ '')'')
                         (filter (\<lambda>(k, v). truthy v) (definitions lx))) \<and>
         (\<forall>k. k \<in> set (tokennames (compile lx)) \<longleftrightarrow>
                (\<exists>v. (k, v) \<in> set (definitions lx) \<and> truthy v)) \<and>
         (\<forall>k. (\<forall>v. (k, v) \<in> set (definitions lx) \<longrightarrow> \<not> truthy v) \<longrightarrow>
            (\<forall>matchAll h str out.
               tokenize matchAll h lx str = Inr out \<and>
               (\<forall>u t. h u = Inr t \<longrightarrow> tok_name t \<noteq> Some k) \<longrightarrow>
               (\<forall>t\<in>set out. tok_name t \<noteq> Some k)))"
proof -
  from Lexer_returns[OF assms] obtain lx where lx: "Lexer defs = Inr lx" by blast
  from Lexer_definitions[OF lx] obtain ds where ds: "map_makedef defs = Inr ds"
    and dl: "definitions lx =
             (if ''whitespace'' \<in> def_name ` set defs then ds
              else ds @ [(''whitespace'', Str default_whitespace)])"
    by blast
  have falsy: "\<forall>k v. Named k v \<in> set defs \<and> \<not> truthy v \<longrightarrow>
      (k, v) \<in> set (definitions lx) \<and> findtoken k lx \<noteq> - 1"
  proof (intro allI impI)
    fix k v assume a: "Named k v \<in> set defs \<and> \<not> truthy v"
    from map_makedef_member[OF ds, of "Named k v"] a obtain d' where
      d': "makedef (Named k v) = Inr d'" "d' \<in> set ds" by blast
    from d'(1) a have "d' = (k, v)"
      by (cases v) (simp_all add: makedef_def truthy_def)
    with d'(2) dl have mem: "(k, v) \<in> set (definitions lx)" by (simp split: if_splits)
    then have "findtoken k lx \<noteq> - 1"
      by (force simp add: findtoken_def findIndex_none)
    with mem show "(k, v) \<in> set (definitions lx) \<and> findtoken k lx \<noteq> - 1" by simp
  qed
  have ws: "\<forall>v. Named ''whitespace'' v \<in> set defs \<and> \<not> truthy v \<longrightarrow>
      map_makedef defs = Inr (definitions lx) \<and> length (definitions lx) = length defs"
  proof (intro allI impI)
    fix v assume a: "Named ''whitespace'' v \<in> set defs \<and> \<not> truthy v"
    then have "''whitespace'' \<in> def_name ` set defs"
      by (force simp add: def_name_def)
    with dl have eq: "definitions lx = ds" by simp
    from map_makedef_names[OF ds] have "length ds = length defs"
      by (metis length_map)
    with eq ds show "map_makedef defs = Inr (definitions lx) \<and>
        length (definitions lx) = length defs" by simp
  qed
  have names: "tokennames (compile lx) = map fst (filter (\<lambda>(k, v). truthy v) (definitions lx))"
    by (simp add: compile_def Let_def)
  have pattern: "re (compile lx) =
           join ''|'' (map (\<lambda>(k, v). ''('' @ to_string v @ '')'')
                         (filter (\<lambda>(k, v). truthy v) (definitions lx)))"
    by (simp add: compile_def Let_def)
  have compiled: "\<forall>k. k \<in> set (tokennames (compile lx)) \<longleftrightarrow>
      (\<exists>v. (k, v) \<in> set (definitions lx) \<and> truthy v)"
    by (simp add: compiled_names)
  have never: "\<forall>k. (\<forall>v. (k, v) \<in> set (definitions lx) \<longrightarrow> \<not> truthy v) \<longrightarrow>
            (\<forall>matchAll h str out.
               tokenize matchAll h lx str = Inr out \<and>
               (\<forall>u t. h u = Inr t \<longrightarrow> tok_name t \<noteq> Some k) \<longrightarrow>
               (\<forall>t\<in>set out. tok_name t \<noteq> Some k))"
  proof (intro allI impI)
    fix k matchAll h str out
    assume none: "\<forall>v. (k, v) \<in> set (definitions lx) \<longrightarrow> \<not> truthy v"
      and run: "tokenize matchAll h lx str = Inr out \<and>
               (\<forall>u t. h u = Inr t \<longrightarrow> tok_name t \<noteq> Some k)"
    from none have notin: "k \<notin> set (tokennames (compile lx))"
      by (simp add: compiled_names)
    from run have loop: "tokenizer_loop (tokennames (compile lx)) (keepws lx) h str
        (matchAll (re (compile lx)) str) [] 0 = Inr out"
      by (simp add: tokenize_def Let_def)
    show "\<forall>t\<in>set out. tok_name t \<noteq> Some k"
    proof
      fix t assume "t \<in> set out"
      from loop_names[OF loop this] run notin show "tok_name t \<noteq> Some k" by auto
    qed
  qed
  from lx falsy ws names pattern compiled never show ?thesis by blast
qed

lemma ex_csv_lexer_built: "Lexer ex_csv_defs = Inr ex_csv_lexer"
  by (simp add: Lexer_def ex_csv_defs_def ex_csv_lexer_def makedef_def findtoken_def)

lemma ex_csv_re: "re (compile ex_csv_lexer) = ''(,)''"
  by (simp add: compile_def ex_csv_lexer_def truthy_def to_string_def)

lemma ex_csv_tokenize:
  "tokenize ex_csv_engine ex_rename ex_csv_lexer ''a, b'' =
     Inr [\<lparr>tok_name = Some ''unquoted'', tok_text = ''a'', tok_cursor = 0\<rparr>,
          \<lparr>tok_name = Some ''comma'', tok_text = '','', tok_cursor = 1\<rparr>,
          \<lparr>tok_name = Some ''unquoted'', tok_text = '' b'', tok_cursor = 2\<rparr>]"
  unfolding tokenize_def Let_def ex_csv_re
  by (simp add: ex_csv_engine_def compile_def ex_csv_lexer_def truthy_def
      tokenizer_loop.simps element_def slice_def ex_rename_def Let_def)

theorem falsy_definition_is_kept_out_of_the_pattern_witness:
  "no_nullish ex_csv_defs \<and>
   Lexer ex_csv_defs = Inr ex_csv_lexer \<and>
   Named ''whitespace'' (Bool False) \<in> set ex_csv_defs \<and> \<not> truthy (Bool False) \<and>
   findtoken ''whitespace'' ex_csv_lexer \<noteq> - 1 \<and>
   map_makedef ex_csv_defs = Inr (definitions ex_csv_lexer) \<and>
   definitions ex_csv_lexer = [(''comma'', Str '',''), (''whitespace'', Bool False)] \<and>
   tokennames (compile ex_csv_lexer) = [''comma''] \<and>
   re (compile ex_csv_lexer) = ''(,)'' \<and>
   filter (\<lambda>(k, v). k = ''whitespace'' \<and> truthy v) (definitions ex_csv_lexer) = [] \<and>
   (\<exists>out. tokenize ex_csv_engine ex_rename ex_csv_lexer ''a, b'' = Inr out \<and>
      out = [\<lparr>tok_name = Some ''unquoted'', tok_text = ''a'', tok_cursor = 0\<rparr>,
             \<lparr>tok_name = Some ''comma'', tok_text = '','', tok_cursor = 1\<rparr>,
             \<lparr>tok_name = Some ''unquoted'', tok_text = '' b'', tok_cursor = 2\<rparr>] \<and>
      filter (\<lambda>t. tok_name t = Some ''whitespace'') out = [])"
proof -
  have nn: "no_nullish ex_csv_defs"
    by (simp add: no_nullish_def ex_csv_defs_def)
  from falsy_definition_is_kept_out_of_the_pattern[OF nn] obtain lx where
    lx: "Lexer ex_csv_defs = Inr lx"
    and inst_falsy: "\<forall>k v. Named k v \<in> set ex_csv_defs \<and> \<not> truthy v \<longrightarrow>
            (k, v) \<in> set (definitions lx) \<and> findtoken k lx \<noteq> - 1"
    and inst_ws: "\<forall>v. Named ''whitespace'' v \<in> set ex_csv_defs \<and> \<not> truthy v \<longrightarrow>
            map_makedef ex_csv_defs = Inr (definitions lx) \<and>
            length (definitions lx) = length ex_csv_defs"
    and inst_never: "\<forall>k. (\<forall>v. (k, v) \<in> set (definitions lx) \<longrightarrow> \<not> truthy v) \<longrightarrow>
            (\<forall>matchAll h str out.
               tokenize matchAll h lx str = Inr out \<and>
               (\<forall>u t. h u = Inr t \<longrightarrow> tok_name t \<noteq> Some k) \<longrightarrow>
               (\<forall>t\<in>set out. tok_name t \<noteq> Some k))"
    by blast
  from lx ex_csv_lexer_built have eq: "lx = ex_csv_lexer" by simp
  have mem: "Named ''whitespace'' (Bool False) \<in> set ex_csv_defs \<and> \<not> truthy (Bool False)"
    by (simp add: ex_csv_defs_def truthy_def)
  have falsy: "\<forall>v. (''whitespace'', v) \<in> set (definitions ex_csv_lexer) \<longrightarrow> \<not> truthy v"
    by (simp add: ex_csv_lexer_def truthy_def)
  have h: "\<forall>u t. ex_rename u = Inr t \<longrightarrow> tok_name t \<noteq> Some ''whitespace''"
    by (auto simp add: ex_rename_def)
  from inst_falsy inst_ws mem eq have a: "findtoken ''whitespace'' ex_csv_lexer \<noteq> - 1"
    and b: "map_makedef ex_csv_defs = Inr (definitions ex_csv_lexer)"
    by blast+
  from inst_never eq falsy h ex_csv_tokenize
  have "\<forall>t\<in>set [\<lparr>tok_name = Some ''unquoted'', tok_text = ''a'', tok_cursor = 0\<rparr>,
             \<lparr>tok_name = Some ''comma'', tok_text = '','', tok_cursor = 1\<rparr>,
             \<lparr>tok_name = Some ''unquoted'', tok_text = '' b'', tok_cursor = 2\<rparr>].
          tok_name t \<noteq> Some ''whitespace''"
    by blast
  then have c: "filter (\<lambda>t. tok_name t = Some ''whitespace'')
            [\<lparr>tok_name = Some ''unquoted'', tok_text = ''a'', tok_cursor = 0\<rparr>,
             \<lparr>tok_name = Some ''comma'', tok_text = '','', tok_cursor = 1\<rparr>,
             \<lparr>tok_name = Some ''unquoted'', tok_text = '' b'', tok_cursor = 2\<rparr>] = []"
    by (simp add: filter_empty_conv)
  have d: "definitions ex_csv_lexer = [(''comma'', Str '',''), (''whitespace'', Bool False)]"
    by (simp add: ex_csv_lexer_def)
  have e: "tokennames (compile ex_csv_lexer) = [''comma'']"
    by (simp add: compile_def ex_csv_lexer_def truthy_def)
  have f: "filter (\<lambda>(k, v). k = ''whitespace'' \<and> truthy v) (definitions ex_csv_lexer) = []"
    by (simp add: ex_csv_lexer_def truthy_def)
  from nn ex_csv_lexer_built mem a b c d e f ex_csv_re ex_csv_tokenize show ?thesis
    by blast
qed

end
